theory Spec2Isabelle
  imports Main "HOL-Library.Sublist" "HOL-Library.AList"
begin

section \<open>The repository contract fetcher of \<^verbatim>\<open>tools/audit_tools.py\<close>\<close>

text \<open>
  The theory embeds \<^verbatim>\<open>GitHubRepositoryTool._run\<close> and
  \<^verbatim>\<open>GitHubRepositoryTool._find_solidity_files\<close>. Python strings are
  \<^typ>\<open>string\<close>, \<^verbatim>\<open>len\<close> is \<^const>\<open>length\<close>, Python integers are
  \<^typ>\<open>int\<close> (lengths are \<^typ>\<open>nat\<close>). The network is a function from
  requests to responses or exceptions; every function that calls
  \<^verbatim>\<open>requests.get\<close> also returns the list of requests it made, in order.
\<close>

subsection \<open>String operations of the Python runtime\<close>

text \<open>\<^verbatim>\<open>s.startswith(p)\<close>, \<^verbatim>\<open>s.endswith(p)\<close> and \<^verbatim>\<open>p in s\<close>.\<close>

definition startswith :: "string \<Rightarrow> string \<Rightarrow> bool" where
  "startswith s p = (take (length p) s = p)"

definition endswith :: "string \<Rightarrow> string \<Rightarrow> bool" where
  "endswith s p = (length p \<le> length s \<and> drop (length s - length p) s = p)"

fun py_in :: "string \<Rightarrow> string \<Rightarrow> bool" where
  "py_in p [] = (p = [])"
| "py_in p (c # s) = (startswith (c # s) p \<or> py_in p s)"

text \<open>\<^verbatim>\<open>s.rstrip('/')\<close>: every trailing slash is removed.\<close>

definition rstrip_slash :: "string \<Rightarrow> string" where
  "rstrip_slash s = rev (dropWhile (\<lambda>c. c = CHR ''/'') (rev s))"

text \<open>
  \<^verbatim>\<open>s.replace(old, new)\<close>: the occurrences of \<open>old\<close> are replaced from left
  to right, without overlap. For an empty \<open>old\<close> Python puts \<open>new\<close> before every
  character and at the end.
\<close>

function py_replace :: "string \<Rightarrow> string \<Rightarrow> string \<Rightarrow> string" where
  "py_replace old new s =
     (if old = [] then new @ concat (map (\<lambda>c. c # new) s)
      else if s = [] then []
      else if startswith s old then new @ py_replace old new (drop (length old) s)
      else hd s # py_replace old new (tl s))"
  by pat_completeness auto
termination
  by (relation "measure (\<lambda>(old, new, s). length s)") auto

declare py_replace.simps [simp del]

text \<open>\<^verbatim>\<open>str(n)\<close> for an integer: decimal digits, with a sign when negative.\<close>

definition digit_char :: "nat \<Rightarrow> char" where
  "digit_char d = ''0123456789'' ! d"

function str_nat :: "nat \<Rightarrow> string" where
  "str_nat n = (if n < 10 then [digit_char n] else str_nat (n div 10) @ [digit_char (n mod 10)])"
  by pat_completeness auto
termination
  by (relation "measure id") auto

declare str_nat.simps [simp del]

definition str_int :: "int \<Rightarrow> string" where
  "str_int i = (if i < 0 then CHR ''-'' # str_nat (nat (- i)) else str_nat (nat i))"

text \<open>The last component of a path: the text after its last slash.\<close>

definition basename :: "string \<Rightarrow> string" where
  "basename p = rev (takeWhile (\<lambda>c. c \<noteq> CHR ''/'') (rev p))"

subsection \<open>Classification of the discovered files\<close>

type_synonym sol_file = "string \<times> string"

text \<open>The condition \<^verbatim>\<open>is_main_contract\<close> of the classification loop.\<close>

definition is_main_contract :: "string \<Rightarrow> bool" where
  "is_main_contract file_path =
     ((py_in ''src/'' file_path \<or> startswith file_path ''src/'') \<and>
      \<not> endswith file_path ''.t.sol'' \<and>
      \<not> endswith file_path ''.s.sol'')"

text \<open>
  The loop over \<^verbatim>\<open>solidity_files\<close> that appends each file to
  \<^verbatim>\<open>main_contracts\<close> or to \<^verbatim>\<open>other_files\<close>; the state is the pair of
  the two lists.
\<close>

fun classify :: "sol_file list \<Rightarrow> sol_file list \<times> sol_file list \<Rightarrow> sol_file list \<times> sol_file list" where
  "classify [] (main_contracts, other_files) = (main_contracts, other_files)"
| "classify ((file_path, download_url) # rest) (main_contracts, other_files) =
     (if is_main_contract file_path
      then classify rest (main_contracts @ [(file_path, download_url)], other_files)
      else classify rest (main_contracts, other_files @ [(file_path, download_url)]))"

text \<open>
  The classification in the words of the specification: the components of a path
  are the texts between its slashes; a file is main when one of the directories of
  its path is named \<open>src\<close> and its name ends neither in \<^verbatim>\<open>.t.sol\<close> nor in
  \<^verbatim>\<open>.s.sol\<close>.
\<close>

fun path_segments :: "string \<Rightarrow> string list" where
  "path_segments [] = [[]]"
| "path_segments (c # s) =
     (if c = CHR ''/'' then [] # path_segments s
      else (case path_segments s of
              [] \<Rightarrow> [[c]]
            | seg # segs \<Rightarrow> (c # seg) # segs))"

definition spec_is_main :: "string \<Rightarrow> bool" where
  "spec_is_main file_path \<longleftrightarrow>
     ''src'' \<in> set (butlast (path_segments file_path)) \<and>
     \<not> suffix ''.t.sol'' (basename file_path) \<and>
     \<not> suffix ''.s.sol'' (basename file_path)"

subsection \<open>The network\<close>

text \<open>
  A request is the URL and the header dictionary handed to \<^verbatim>\<open>requests.get\<close>; a
  dictionary is an association list in insertion order. \<^verbatim>\<open>requests.get\<close>
  either raises (a transport error, with the text \<^verbatim>\<open>str(e)\<close> gives) or returns
  a response, of which the code reads \<^verbatim>\<open>status_code\<close>, \<^verbatim>\<open>text\<close> and
  \<^verbatim>\<open>json()\<close>.

  A listing body is an array of entries. The code reads the keys
  \<^verbatim>\<open>type\<close>, \<^verbatim>\<open>name\<close>, \<^verbatim>\<open>path\<close> and \<^verbatim>\<open>download_url\<close> of an entry;
  \<open>Broken\<close> is an array element on which such a read raises (not an object, a key
  missing). \<^verbatim>\<open>json()\<close> is \<open>Inl\<close> when the body is no JSON or no array.
\<close>

type_synonym dict = "(string \<times> string) list"

record request =
  req_url :: string
  req_headers :: dict

datatype exn = Exn string

fun str_exn :: "exn \<Rightarrow> string" where
  "str_exn (Exn m) = m"

record item =
  item_type :: string
  item_name :: string
  item_path :: string
  item_download_url :: string

datatype entry = Entry item | Broken

record response =
  status_code :: int
  body_text :: string
  body_json :: "exn + entry list"

type_synonym network = "request \<Rightarrow> exn + response"

text \<open>\<^verbatim>\<open>d.get(k, default)\<close> and \<^verbatim>\<open>d[k] = v\<close>.\<close>

definition dict_get :: "dict \<Rightarrow> string \<Rightarrow> string \<Rightarrow> string" where
  "dict_get d k dflt = (case map_of d k of None \<Rightarrow> dflt | Some v \<Rightarrow> v)"

definition dict_set :: "dict \<Rightarrow> string \<Rightarrow> string \<Rightarrow> dict" where
  "dict_set d k v = AList.update k v d"

subsection \<open>Recursive discovery: \<^verbatim>\<open>_find_solidity_files\<close>\<close>

definition api_url :: "string \<Rightarrow> string \<Rightarrow> string \<Rightarrow> string" where
  "api_url owner repo path =
     ''https://api.github.com/repos/'' @ owner @ ''/'' @ repo @ ''/contents/'' @ path"

definition list_headers :: "dict \<Rightarrow> dict" where
  "list_headers headers = filter (\<lambda>(k, v). k \<noteq> ''Accept'') headers"

text \<open>
  The loop over the entries of one listing; \<open>recurse\<close> is the recursive call on a
  subdirectory. An exception raised at an entry leaves the loop through
  \<^verbatim>\<open>except Exception: pass\<close>, and the files collected so far are returned.
\<close>

fun scan_items ::
  "(string \<Rightarrow> sol_file list \<times> request list) \<Rightarrow> entry list \<Rightarrow> sol_file list \<times> request list"
where
  "scan_items recurse [] = ([], [])"
| "scan_items recurse (Broken # rest) = ([], [])"
| "scan_items recurse (Entry it # rest) =
     (let (found, tr) =
            (if item_type it = ''file'' \<and> endswith (item_name it) ''.sol''
             then ([(item_path it, item_download_url it)], [])
             else if item_type it = ''dir'' then recurse (item_path it)
             else ([], []));
          (found', tr') = scan_items recurse rest
      in (found @ found', tr @ tr'))"

text \<open>
  The first argument bounds the depth of the recursion, as the interpreter's
  recursion limit does: a call beyond it raises \<^verbatim>\<open>RecursionError\<close>, an
  \<^verbatim>\<open>Exception\<close>, inside the \<^verbatim>\<open>try\<close>, so that call returns its empty list.
\<close>

fun find_solidity_files ::
  "network \<Rightarrow> nat \<Rightarrow> string \<Rightarrow> string \<Rightarrow> string \<Rightarrow> dict \<Rightarrow> sol_file list \<times> request list"
where
  "find_solidity_files net 0 owner repo path headers = ([], [])"
| "find_solidity_files net (Suc depth) owner repo path headers =
     (let req = \<lparr>req_url = api_url owner repo path, req_headers = list_headers headers\<rparr> in
      case net req of
        Inl e \<Rightarrow> ([], [req])
      | Inr response \<Rightarrow>
          if status_code response \<noteq> 200 then ([], [req])
          else (case body_json response of
                  Inl e \<Rightarrow> ([], [req])
                | Inr contents \<Rightarrow>
                    (let (found, tr) =
                           scan_items (\<lambda>p. find_solidity_files net depth owner repo p headers) contents
                     in (found, req # tr))))"

subsection \<open>Rendering: the two loops of \<^verbatim>\<open>_run\<close>\<close>

definition raw_url :: "string \<Rightarrow> string" where
  "raw_url download_url =
     py_replace ''/contents/'' ''/''
       (py_replace ''https://api.github.com/repos/'' ''https://raw.githubusercontent.com/''
          download_url)"

definition file_request :: "dict \<Rightarrow> string \<Rightarrow> request" where
  "file_request headers download_url =
     \<lparr>req_url = raw_url download_url,
      req_headers = [(''Authorization'', dict_get headers ''Authorization'' [])]\<rparr>"

definition main_output :: "string \<Rightarrow> string \<Rightarrow> string" where
  "main_output file_path content =
     ''\<newline>=== MAIN CONTRACT: '' @ file_path @ '' ===\<newline>'' @
     ''Contract size: '' @ str_nat (length content) @ '' characters\<newline>'' @
     ''Complete source code:\<newline>'' @ content @ ''\<newline>''"

definition supporting_output :: "string \<Rightarrow> string \<Rightarrow> string" where
  "supporting_output file_path content =
     ''\<newline>=== SUPPORTING FILE: '' @ file_path @ '' ===\<newline>'' @
     ''File size: '' @ str_nat (length content) @ '' characters\<newline>'' @
     (if length content > 2000
      then ''First 2000 characters:\<newline>'' @ take 2000 content @
           ''...\<newline>[File truncated for brevity]\<newline>''
      else ''Complete content:\<newline>'' @ content @ ''\<newline>'')"

definition error_status :: "string \<Rightarrow> int \<Rightarrow> string" where
  "error_status file_path code =
     ''\<newline>=== ERROR: '' @ file_path @ '' ===\<newline>Could not fetch file (Status: '' @
     str_int code @ '')\<newline>''"

definition error_exception :: "string \<Rightarrow> exn \<Rightarrow> string" where
  "error_exception file_path file_error =
     ''\<newline>=== ERROR: '' @ file_path @ '' ===\<newline>Exception: '' @
     str_exn file_error @ ''\<newline>''"

definition limit_notice :: string where
  "limit_notice =
     ''\<newline>=== OUTPUT SIZE LIMIT REACHED ===\<newline>Additional supporting files truncated.\<newline>''"

text \<open>
  The state of the loops: \<^verbatim>\<open>results\<close>, \<^verbatim>\<open>total_chars\<close>, and the requests made
  so far. The loop over \<^verbatim>\<open>main_contracts\<close>:
\<close>

type_synonym fetch_state = "string list \<times> nat \<times> request list"

fun process_main :: "network \<Rightarrow> dict \<Rightarrow> sol_file list \<Rightarrow> fetch_state \<Rightarrow> fetch_state" where
  "process_main net headers [] st = st"
| "process_main net headers ((file_path, download_url) # rest) (results, total_chars, tr) =
     (let req = file_request headers download_url in
      case net req of
        Inr file_response \<Rightarrow>
          if status_code file_response = 200
          then (let content = body_text file_response;
                    file_output = main_output file_path content
                in process_main net headers rest
                     (results @ [file_output], total_chars + length file_output, tr @ [req]))
          else process_main net headers rest
                 (results @ [error_status file_path (status_code file_response)],
                  total_chars, tr @ [req])
      | Inl file_error \<Rightarrow>
          process_main net headers rest
            (results @ [error_exception file_path file_error], total_chars, tr @ [req]))"

text \<open>The loop over \<^verbatim>\<open>other_files\<close>, with its \<^verbatim>\<open>break\<close>:\<close>

fun process_other :: "network \<Rightarrow> dict \<Rightarrow> sol_file list \<Rightarrow> fetch_state \<Rightarrow> fetch_state" where
  "process_other net headers [] st = st"
| "process_other net headers ((file_path, download_url) # rest) (results, total_chars, tr) =
     (if total_chars > 100000 then (results @ [limit_notice], total_chars, tr)
      else
       (let req = file_request headers download_url in
        case net req of
          Inr file_response \<Rightarrow>
            if status_code file_response = 200
            then (let content = body_text file_response;
                      file_output = supporting_output file_path content
                  in process_other net headers rest
                       (results @ [file_output], total_chars + length file_output, tr @ [req]))
            else process_other net headers rest
                   (results @ [error_status file_path (status_code file_response)],
                    total_chars, tr @ [req])
        | Inl file_error \<Rightarrow>
            process_other net headers rest
              (results @ [error_exception file_path file_error], total_chars, tr @ [req])))"

subsection \<open>The fetcher: \<^verbatim>\<open>_run\<close>\<close>

text \<open>
  \<^verbatim>\<open>re.match(r'https://github\.com/([^/]+)/([^/]+)', s)\<close>: the match is anchored at
  the start of \<open>s\<close> only. Both groups are greedy runs of characters other than a
  slash; the first must be followed by a slash, so it is the whole run.
\<close>

definition not_slash :: "char \<Rightarrow> bool" where
  "not_slash c = (c \<noteq> CHR ''/'')"

definition url_match :: "string \<Rightarrow> (string \<times> string) option" where
  "url_match s =
     (if \<not> startswith s ''https://github.com/'' then None
      else (let t = drop (length ''https://github.com/'') s;
                owner = takeWhile not_slash t
            in if owner = [] then None
               else (case dropWhile not_slash t of
                       [] \<Rightarrow> None
                     | c # u \<Rightarrow>
                         (let repo = takeWhile not_slash u
                          in if repo = [] then None else Some (owner, repo)))))"

definition invalid_url_message :: string where
  "invalid_url_message =
     ''Error: Invalid GitHub URL format. Expected: https://github.com/owner/repo''"

definition no_files_message :: string where
  "no_files_message = ''No Solidity (.sol) files found in the repository.''"

text \<open>The header dictionary; \<open>github_token\<close> is \<^verbatim>\<open>os.getenv('GITHUB_TOKEN')\<close>.\<close>

definition make_headers :: "string option \<Rightarrow> dict" where
  "make_headers github_token =
     (let headers = [(''Accept'', ''application/vnd.github.v3.raw'')] in
      case github_token of
        None \<Rightarrow> headers
      | Some tok \<Rightarrow>
          if tok \<noteq> [] then dict_set headers ''Authorization'' (''token '' @ tok)
          else headers)"

definition summary_block :: "string \<Rightarrow> nat \<Rightarrow> nat \<Rightarrow> nat \<Rightarrow> string" where
  "summary_block repo_url n_files n_main n_other =
     ''=== REPOSITORY ANALYSIS SUMMARY ===\<newline>'' @
     ''Repository: '' @ repo_url @ ''\<newline>'' @
     ''Total files found: '' @ str_nat n_files @ ''\<newline>'' @
     ''Main contracts: '' @ str_nat n_main @ ''\<newline>'' @
     ''Supporting files: '' @ str_nat n_other @ ''\<newline>\<newline>''"

definition final_summary_block :: "string \<Rightarrow> nat \<Rightarrow> nat \<Rightarrow> string" where
  "final_summary_block summary n_other n_output =
     py_replace ''Supporting files:''
       (''Supporting files: '' @ str_nat n_other @ ''\<newline>Total output size: '' @
        str_nat n_output @ '' characters\<newline>'')
       summary"

text \<open>
  The rendering part of \<^verbatim>\<open>_run\<close>, from the classification to the end of the
  second loop: the summary, then the sections in order, the final counter and the
  requests.
\<close>

definition render ::
  "network \<Rightarrow> dict \<Rightarrow> string \<Rightarrow> sol_file list \<Rightarrow> request list \<Rightarrow> string \<times> fetch_state"
where
  "render net headers repo_url solidity_files tr0 =
     (let (main_contracts, other_files) = classify solidity_files ([], []);
          summary = summary_block repo_url (length solidity_files)
                      (length main_contracts) (length other_files);
          st1 = process_main net headers main_contracts ([summary], 0, tr0);
          st2 = process_other net headers other_files st1
      in (summary, st2))"

text \<open>
  \<^verbatim>\<open>_run\<close> returns the document; the model returns the requests with it.
  \<open>depth\<close> is the recursion depth left to the discovery. \<open>file_pattern\<close> is
  accepted and not read, as in the source.

  The body of \<^verbatim>\<open>_run\<close> stands in a \<^verbatim>\<open>try\<close> whose handler returns
  \<^verbatim>\<open>"Error: " + str(e)\<close>. Every call that can raise here, \<^verbatim>\<open>requests.get\<close> in the
  discovery and in the two loops, is inside a \<^verbatim>\<open>try\<close> of its own, modelled where it
  stands; with paths and download URLs that are strings nothing else in the body
  raises, so the outer handler has no branch in the model.
\<close>

definition run ::
  "network \<Rightarrow> string option \<Rightarrow> nat \<Rightarrow> string \<Rightarrow> string \<Rightarrow> string \<times> request list"
where
  "run net github_token depth repo_url file_pattern =
     (case url_match (rstrip_slash repo_url) of
        None \<Rightarrow> (invalid_url_message, [])
      | Some (owner, repo) \<Rightarrow>
          (let headers = make_headers github_token;
               (solidity_files, tr0) = find_solidity_files net depth owner repo [] headers
           in if solidity_files = [] then (no_files_message, tr0)
              else (let (summary, results, total_chars, tr) =
                          render net headers repo_url solidity_files tr0;
                        other_files = snd (classify solidity_files ([], []));
                        full_output = concat results;
                        final_summary =
                          final_summary_block summary (length other_files) (length full_output)
                    in (py_replace summary final_summary full_output, tr))))"

subsection \<open>Notions used to state the properties\<close>

text \<open>
  What one iteration of a file loop appends for a file, and by how much it increases
  \<^verbatim>\<open>total_chars\<close>; \<open>render_ok\<close> is \<^const>\<open>main_output\<close> in the first loop and
  \<^const>\<open>supporting_output\<close> in the second.
\<close>

definition fetch_section ::
  "(string \<Rightarrow> string \<Rightarrow> string) \<Rightarrow> network \<Rightarrow> dict \<Rightarrow> sol_file \<Rightarrow> string"
where
  "fetch_section render_ok net headers f =
     (case net (file_request headers (snd f)) of
        Inr file_response \<Rightarrow>
          if status_code file_response = 200
          then render_ok (fst f) (body_text file_response)
          else error_status (fst f) (status_code file_response)
      | Inl file_error \<Rightarrow> error_exception (fst f) file_error)"

definition fetch_chars ::
  "(string \<Rightarrow> string \<Rightarrow> string) \<Rightarrow> network \<Rightarrow> dict \<Rightarrow> sol_file \<Rightarrow> nat"
where
  "fetch_chars render_ok net headers f =
     (case net (file_request headers (snd f)) of
        Inr file_response \<Rightarrow>
          if status_code file_response = 200
          then length (render_ok (fst f) (body_text file_response))
          else 0
      | Inl file_error \<Rightarrow> 0)"

text \<open>A fetch fails when \<^verbatim>\<open>requests.get\<close> raises or the status is not 200.\<close>

definition fetch_fails :: "network \<Rightarrow> request \<Rightarrow> bool" where
  "fetch_fails net req =
     (case net req of Inl e \<Rightarrow> True | Inr response \<Rightarrow> status_code response \<noteq> 200)"

text \<open>
  The number of supporting files the second loop handles before it stops, when it
  starts with the counter at \<open>total_chars\<close>.
\<close>

fun handled :: "network \<Rightarrow> dict \<Rightarrow> sol_file list \<Rightarrow> nat \<Rightarrow> nat" where
  "handled net headers [] total_chars = 0"
| "handled net headers (f # rest) total_chars =
     (if total_chars > 100000 then 0
      else Suc (handled net headers rest
                  (total_chars + fetch_chars supporting_output net headers f)))"

text \<open>The kinds of block, told by their first line.\<close>

definition is_main_block :: "string \<Rightarrow> bool" where
  "is_main_block s = startswith s ''\<newline>=== MAIN CONTRACT: ''"

definition is_supporting_block :: "string \<Rightarrow> bool" where
  "is_supporting_block s = startswith s ''\<newline>=== SUPPORTING FILE: ''"

definition is_error_block :: "string \<Rightarrow> bool" where
  "is_error_block s = startswith s ''\<newline>=== ERROR: ''"

subsection \<open>The shape of a repository URL\<close>

text \<open>
  The shape in the words of the specification: the URL, a trailing slash tolerated,
  is \<^verbatim>\<open>https://github.com/<owner>/<repo>\<close>, where neither name is empty or contains
  a slash.
\<close>

definition spec_url_shape :: "string \<Rightarrow> bool" where
  "spec_url_shape repo_url \<longleftrightarrow>
     (\<exists>owner repo.
        rstrip_slash repo_url = ''https://github.com/'' @ owner @ ''/'' @ repo \<and>
        owner \<noteq> [] \<and> CHR ''/'' \<notin> set owner \<and> repo \<noteq> [] \<and> CHR ''/'' \<notin> set repo)"

text \<open>The URL, its trailing slashes removed, begins with that shape.\<close>

definition begins_with_url_shape :: "string \<Rightarrow> bool" where
  "begins_with_url_shape repo_url \<longleftrightarrow>
     (\<exists>owner repo rest.
        rstrip_slash repo_url = ''https://github.com/'' @ owner @ ''/'' @ repo @ rest \<and>
        owner \<noteq> [] \<and> CHR ''/'' \<notin> set owner \<and> repo \<noteq> [] \<and> CHR ''/'' \<notin> set repo)"

subsection \<open>The structure of the document\<close>

definition is_summary_block :: "string \<Rightarrow> bool" where
  "is_summary_block s = startswith s ''=== REPOSITORY ANALYSIS SUMMARY ===''"

text \<open>
  The structure in the words of the specification, for the list of blocks: the
  summary block, then MAIN CONTRACT blocks, then SUPPORTING FILE or ERROR blocks,
  then possibly the notice.
\<close>

definition spec_structure :: "string list \<Rightarrow> bool" where
  "spec_structure blocks =
     (case blocks of
        [] \<Rightarrow> False
      | s # rest \<Rightarrow>
          is_summary_block s \<and>
          (let after_main = dropWhile is_main_block rest;
               after_supporting =
                 dropWhile (\<lambda>b. is_supporting_block b \<or> is_error_block b) after_main
           in after_supporting = [] \<or> after_supporting = [limit_notice]))"

subsection \<open>Example networks\<close>

text \<open>A network that answers every request with status 200 and the text \<open>x\<close>.\<close>

definition ok_net :: network where
  "ok_net req = Inr \<lparr>status_code = 200, body_text = ''x'', body_json = Inl (Exn ''no JSON'')\<rparr>"

text \<open>
  A text of 2001 characters, and a repository \<open>o/r\<close> whose root listing has the
  main file \<open>src/a.sol\<close> and the supporting files \<open>test/a.t.sol\<close> and
  \<open>test/b.t.sol\<close>, in this order. The content of \<open>test/a.t.sol\<close> is answered with
  status 404; the two other contents are that text.
\<close>

definition long_text :: string where
  "long_text = replicate 2001 CHR ''a''"

definition mixed_net :: network where
  "mixed_net req =
     (if req_url req = ''https://api.github.com/repos/o/r/contents/''
      then Inr \<lparr>status_code = 200, body_text = [],
                body_json = Inr
                  [Entry \<lparr>item_type = ''file'', item_name = ''a.sol'', item_path = ''src/a.sol'',
                          item_download_url = ''https://h/a.sol''\<rparr>,
                   Entry \<lparr>item_type = ''file'', item_name = ''a.t.sol'',
                          item_path = ''test/a.t.sol'',
                          item_download_url = ''https://h/a.t.sol''\<rparr>,
                   Entry \<lparr>item_type = ''file'', item_name = ''b.t.sol'',
                          item_path = ''test/b.t.sol'',
                          item_download_url = ''https://h/b.t.sol''\<rparr>]\<rparr>
      else if req_url req = ''https://h/a.t.sol''
      then Inr \<lparr>status_code = 404, body_text = ''Not Found'',
                body_json = Inl (Exn ''no JSON'')\<rparr>
      else Inr \<lparr>status_code = 200, body_text = long_text,
                body_json = Inl (Exn ''no JSON'')\<rparr>)"

text \<open>A network on which every request raises.\<close>

definition down_net :: network where
  "down_net req = Inl (Exn ''connection refused'')"



text \<open>
  A repository \<open>o/r\<close> whose root has, in this order, the file \<open>a.sol\<close>, a directory
  \<open>lib\<close> whose listing is answered with status 404, a directory \<open>src\<close> whose
  listing has the file \<open>src/c.sol\<close>, and the file \<open>b.sol\<close>. Every other request is
  answered with status 404.
\<close>

definition tree_net :: network where
  "tree_net req =
     (if req_url req = ''https://api.github.com/repos/o/r/contents/''
      then Inr \<lparr>status_code = 200, body_text = [],
                body_json = Inr
                  [Entry \<lparr>item_type = ''file'', item_name = ''a.sol'', item_path = ''a.sol'',
                          item_download_url = ''https://h/a.sol''\<rparr>,
                   Entry \<lparr>item_type = ''dir'', item_name = ''lib'', item_path = ''lib'',
                          item_download_url = []\<rparr>,
                   Entry \<lparr>item_type = ''dir'', item_name = ''src'', item_path = ''src'',
                          item_download_url = []\<rparr>,
                   Entry \<lparr>item_type = ''file'', item_name = ''b.sol'', item_path = ''b.sol'',
                          item_download_url = ''https://h/b.sol''\<rparr>]\<rparr>
      else if req_url req = ''https://api.github.com/repos/o/r/contents/src''
      then Inr \<lparr>status_code = 200, body_text = [],
                body_json = Inr
                  [Entry \<lparr>item_type = ''file'', item_name = ''c.sol'', item_path = ''src/c.sol'',
                          item_download_url = ''https://h/c.sol''\<rparr>]\<rparr>
      else Inr \<lparr>status_code = 404, body_text = ''Not Found'',
                body_json = Inl (Exn ''no JSON'')\<rparr>)"

text \<open>
  A repository \<open>o/r\<close> whose root listing has the one file \<open>src/a.sol\<close>; every
  other request is answered with status 200 and the text \<open>x\<close>.
\<close>

definition one_file_net :: network where
  "one_file_net req =
     (if req_url req = ''https://api.github.com/repos/o/r/contents/''
      then Inr \<lparr>status_code = 200, body_text = [],
                body_json = Inr
                  [Entry \<lparr>item_type = ''file'', item_name = ''a.sol'', item_path = ''src/a.sol'',
                          item_download_url =
                            ''https://api.github.com/repos/o/r/contents/src/a.sol''\<rparr>]\<rparr>
      else Inr \<lparr>status_code = 200, body_text = ''x'', body_json = Inl (Exn ''no JSON'')\<rparr>)"

text \<open>
  A repository \<open>o/r\<close> whose root listing has the files \<open>src/a.sol\<close> and
  \<open>src/b.sol\<close>; the content of \<open>src/a.sol\<close> is answered with status 404, every other
  request with status 200 and the text \<open>x\<close>.
\<close>

definition two_main_net :: network where
  "two_main_net req =
     (if req_url req = ''https://api.github.com/repos/o/r/contents/''
      then Inr \<lparr>status_code = 200, body_text = [],
                body_json = Inr
                  [Entry \<lparr>item_type = ''file'', item_name = ''a.sol'', item_path = ''src/a.sol'',
                          item_download_url = ''https://h/a.sol''\<rparr>,
                   Entry \<lparr>item_type = ''file'', item_name = ''b.sol'', item_path = ''src/b.sol'',
                          item_download_url = ''https://h/b.sol''\<rparr>]\<rparr>
      else if req_url req = ''https://h/a.sol''
      then Inr \<lparr>status_code = 404, body_text = ''Not Found'',
                body_json = Inl (Exn ''no JSON'')\<rparr>
      else Inr \<lparr>status_code = 200, body_text = ''x'', body_json = Inl (Exn ''no JSON'')\<rparr>)"

subsection \<open>Facts about the string operations\<close>

lemma startswith_prefix: "startswith s p \<longleftrightarrow> prefix p s"
  unfolding startswith_def prefix_def
  by (metis append_eq_conv_conj append_take_drop_id)

lemma endswith_suffix: "endswith s p \<longleftrightarrow> suffix p s"
proof
  assume "endswith s p"
  then have "s = take (length s - length p) s @ p"
    unfolding endswith_def by (metis append_take_drop_id)
  then show "suffix p s" unfolding suffix_def by blast
next
  assume "suffix p s"
  then obtain a where "s = a @ p" unfolding suffix_def by blast
  then show "endswith s p" unfolding endswith_def by simp
qed

lemma py_in_sublist: "py_in p s \<longleftrightarrow> sublist p s"
  by (induction s) (auto simp: startswith_prefix sublist_Cons_right)

lemma suffix_basename:
  assumes "CHR ''/'' \<notin> set e"
  shows "suffix e (basename p) \<longleftrightarrow> suffix e p"
proof -
  have "prefix (rev e) (takeWhile (\<lambda>c. c \<noteq> CHR ''/'') (rev p)) \<longleftrightarrow> prefix (rev e) (rev p)"
  proof
    assume "prefix (rev e) (takeWhile (\<lambda>c. c \<noteq> CHR ''/'') (rev p))"
    moreover have "prefix (takeWhile (\<lambda>c. c \<noteq> CHR ''/'') (rev p)) (rev p)"
      by (metis prefixI takeWhile_dropWhile_id)
    ultimately show "prefix (rev e) (rev p)" by (rule prefix_order.trans)
  next
    assume "prefix (rev e) (rev p)"
    then obtain r where r: "rev p = rev e @ r" unfolding prefix_def by blast
    have "takeWhile (\<lambda>c. c \<noteq> CHR ''/'') (rev e @ r) = rev e @ takeWhile (\<lambda>c. c \<noteq> CHR ''/'') r"
      by (rule takeWhile_append2) (use assms in auto)
    then show "prefix (rev e) (takeWhile (\<lambda>c. c \<noteq> CHR ''/'') (rev p))"
      using r by simp
  qed
  then show ?thesis
    unfolding basename_def by (simp add: suffix_to_prefix)
qed

lemma classify_eq:
  "classify fs (ms, os) =
     (ms @ filter (\<lambda>f. is_main_contract (fst f)) fs,
      os @ filter (\<lambda>f. \<not> is_main_contract (fst f)) fs)"
  by (induction fs arbitrary: ms os) auto

subsection \<open>The two file loops\<close>

lemma process_main_eq:
  "process_main net headers fs (results, total_chars, tr) =
     (results @ map (fetch_section main_output net headers) fs,
      total_chars + sum_list (map (fetch_chars main_output net headers) fs),
      tr @ map (\<lambda>f. file_request headers (snd f)) fs)"
proof (induction fs arbitrary: results total_chars tr)
  case Nil
  show ?case by simp
next
  case (Cons f fs)
  obtain p u where f: "f = (p, u)" by (cases f)
  show ?case
    unfolding f
    by (simp add: Cons.IH fetch_section_def fetch_chars_def Let_def split: sum.split)
qed

lemma process_other_eq:
  "process_other net headers fs (results, total_chars, tr) =
     (let k = handled net headers fs total_chars in
      (results @ map (fetch_section supporting_output net headers) (take k fs) @
         (if k < length fs then [limit_notice] else []),
       total_chars + sum_list (map (fetch_chars supporting_output net headers) (take k fs)),
       tr @ map (\<lambda>f. file_request headers (snd f)) (take k fs)))"
proof (induction fs arbitrary: results total_chars tr)
  case Nil
  show ?case by simp
next
  case (Cons f fs)
  obtain p u where f: "f = (p, u)" by (cases f)
  show ?case
  proof (cases "total_chars > 100000")
    case True
    then show ?thesis unfolding f by simp
  next
    case False
    then show ?thesis
      unfolding f
      by (simp add: Cons.IH fetch_section_def fetch_chars_def Let_def split: sum.split)
  qed
qed

subsection \<open>Classification\<close>

lemma is_main_contract_iff:
  "is_main_contract p \<longleftrightarrow>
     sublist ''src/'' p \<and> \<not> suffix ''.t.sol'' (basename p) \<and> \<not> suffix ''.s.sol'' (basename p)"
proof -
  have "startswith p ''src/'' \<Longrightarrow> sublist ''src/'' p"
    by (simp add: startswith_prefix)
  then show ?thesis
    unfolding is_main_contract_def
    by (auto simp: py_in_sublist endswith_suffix suffix_basename)
qed

lemma is_main_contract_examples:
  "is_main_contract (d @ ''src/foo.sol'')"
  "\<not> is_main_contract (d @ ''src/foo.t.sol'')"
  "\<not> is_main_contract (d @ ''src/foo.s.sol'')"
proof -
  have "sublist ''src/'' (d @ ''src/'' @ ''foo.sol'')"
    by (rule sublist_appendI)
  moreover have "\<not> suffix ''.t.sol'' (d @ ''src/foo.sol'')" "\<not> suffix ''.s.sol'' (d @ ''src/foo.sol'')"
    by (simp_all add: suffix_to_prefix)
  ultimately show "is_main_contract (d @ ''src/foo.sol'')"
    unfolding is_main_contract_def by (simp add: py_in_sublist endswith_suffix)
  have "suffix ''.t.sol'' (d @ ''src/foo'' @ ''.t.sol'')" "suffix ''.s.sol'' (d @ ''src/foo'' @ ''.s.sol'')"
    by (simp_all add: suffix_def)
  then show "\<not> is_main_contract (d @ ''src/foo.t.sol'')" "\<not> is_main_contract (d @ ''src/foo.s.sol'')"
    unfolding is_main_contract_def by (simp_all add: endswith_suffix)
qed

text \<open>
  What the loop does: a discovered file is put in \<^verbatim>\<open>main_contracts\<close> exactly when
  the text \<^verbatim>\<open>src/\<close> occurs somewhere in its path and its name (the last component
  of the path) ends neither in \<^verbatim>\<open>.t.sol\<close> nor in \<^verbatim>\<open>.s.sol\<close>; otherwise it is put
  in \<^verbatim>\<open>other_files\<close>. A path that ends in \<^verbatim>\<open>src/foo.sol\<close> is main; one that ends
  in \<^verbatim>\<open>src/foo.t.sol\<close> or \<^verbatim>\<open>src/foo.s.sol\<close> is supporting.
\<close>

lemma classify_membership:
  assumes "classify solidity_files ([], []) = (main_contracts, other_files)"
    and "f \<in> set solidity_files"
  shows "(f \<in> set main_contracts \<longleftrightarrow>
            sublist ''src/'' (fst f) \<and>
            \<not> suffix ''.t.sol'' (basename (fst f)) \<and>
            \<not> suffix ''.s.sol'' (basename (fst f))) \<and>
         (f \<in> set other_files \<longleftrightarrow> f \<notin> set main_contracts) \<and>
         classify [(d @ ''src/foo.sol'', u)] ([], []) = ([(d @ ''src/foo.sol'', u)], []) \<and>
         classify [(d @ ''src/foo.t.sol'', u)] ([], []) = ([], [(d @ ''src/foo.t.sol'', u)]) \<and>
         classify [(d @ ''src/foo.s.sol'', u)] ([], []) = ([], [(d @ ''src/foo.s.sol'', u)])"
proof -
  from assms(1) have m: "main_contracts = filter (\<lambda>f. is_main_contract (fst f)) solidity_files"
    and o: "other_files = filter (\<lambda>f. \<not> is_main_contract (fst f)) solidity_files"
    by (simp_all add: classify_eq)
  have 1: "f \<in> set main_contracts \<longleftrightarrow>
            sublist ''src/'' (fst f) \<and>
            \<not> suffix ''.t.sol'' (basename (fst f)) \<and>
            \<not> suffix ''.s.sol'' (basename (fst f))"
    using assms(2) unfolding m by (simp add: is_main_contract_iff)
  have 2: "f \<in> set other_files \<longleftrightarrow> f \<notin> set main_contracts"
    using assms(2) unfolding m o by simp
  have 3: "classify [(d @ ''src/foo.sol'', u)] ([], []) = ([(d @ ''src/foo.sol'', u)], [])"
    "classify [(d @ ''src/foo.t.sol'', u)] ([], []) = ([], [(d @ ''src/foo.t.sol'', u)])"
    "classify [(d @ ''src/foo.s.sol'', u)] ([], []) = ([], [(d @ ''src/foo.s.sol'', u)])"
    by (simp_all add: is_main_contract_examples)
  show ?thesis using 1 2 3 by blast
qed

lemma classify_membership_example:
  "classify [(''src/foo.sol'', ''u''), (''src/foo.t.sol'', ''v'')] ([], []) =
     ([(''src/foo.sol'', ''u'')], [(''src/foo.t.sol'', ''v'')]) \<and>
   (''src/foo.sol'', ''u'') \<in> set [(''src/foo.sol'', ''u''), (''src/foo.t.sol'', ''v'')] \<and>
   sublist ''src/'' ''src/foo.sol'' \<and> \<not> suffix ''.t.sol'' (basename ''src/foo.sol'') \<and>
   \<not> suffix ''.s.sol'' (basename ''src/foo.sol'')"
proof -
  have c: "classify [(''src/foo.sol'', ''u''), (''src/foo.t.sol'', ''v'')] ([], []) =
     ([(''src/foo.sol'', ''u'')], [(''src/foo.t.sol'', ''v'')])"
    by (simp add: is_main_contract_def startswith_def endswith_def)
  have m: "(''src/foo.sol'', ''u'') \<in> set [(''src/foo.sol'', ''u''), (''src/foo.t.sol'', ''v'')]"
    by simp
  show ?thesis
    using classify_membership [OF c m] c by simp
qed

text \<open>
  Every file that is main in the words of the specification is put in
  \<^verbatim>\<open>main_contracts\<close>: a directory named \<open>src\<close> makes \<^verbatim>\<open>src/\<close> occur in the path.
\<close>

lemma path_segments_not_Nil: "path_segments s \<noteq> []"
  by (induction s) (auto split: list.splits)

lemma path_segments_hd_prefix:
  "path_segments s = x # xs \<Longrightarrow> xs \<noteq> [] \<Longrightarrow> prefix (x @ ''/'') s"
proof (induction s arbitrary: x xs)
  case Nil
  then show ?case by simp
next
  case (Cons c s)
  show ?case
  proof (cases "c = CHR ''/''")
    case True
    with Cons.prems show ?thesis by simp
  next
    case False
    obtain y ys where p: "path_segments s = y # ys"
      using path_segments_not_Nil [of s] by (cases "path_segments s") auto
    with Cons.prems False have x: "x = c # y" and xs: "xs = ys" by simp_all
    from Cons.IH [OF p] Cons.prems(2) xs have "prefix (y @ ''/'') s" by simp
    then show ?thesis unfolding x by simp
  qed
qed

lemma path_segments_sublist:
  "seg \<in> set (butlast (path_segments s)) \<Longrightarrow> sublist (seg @ ''/'') s"
proof (induction s arbitrary: seg)
  case Nil
  then show ?case by simp
next
  case (Cons c s)
  obtain y ys where p: "path_segments s = y # ys"
    using path_segments_not_Nil [of s] by (cases "path_segments s") auto
  show ?case
  proof (cases "c = CHR ''/''")
    case True
    with Cons.prems p have "seg = [] \<or> seg \<in> set (butlast (path_segments s))"
      by (auto split: if_splits)
    then show ?thesis
    proof
      assume "seg = []"
      with True show ?thesis by (simp add: sublist_Cons_right)
    next
      assume "seg \<in> set (butlast (path_segments s))"
      then have "sublist (seg @ ''/'') s" by (rule Cons.IH)
      then show ?thesis by (simp add: sublist_Cons_right)
    qed
  next
    case False
    with Cons.prems p have "(seg = c # y \<and> ys \<noteq> []) \<or> seg \<in> set (butlast ys)"
      by (auto split: if_splits)
    then show ?thesis
    proof
      assume a: "seg = c # y \<and> ys \<noteq> []"
      then have "prefix (y @ ''/'') s"
        using path_segments_hd_prefix [OF p] by simp
      with a show ?thesis by (simp add: sublist_Cons_right)
    next
      assume "seg \<in> set (butlast ys)"
      then have "seg \<in> set (butlast (path_segments s))"
        unfolding p by (auto split: if_splits)
      then have "sublist (seg @ ''/'') s" by (rule Cons.IH)
      then show ?thesis by (simp add: sublist_Cons_right)
    qed
  qed
qed

lemma spec_is_main_accepted: "spec_is_main p \<Longrightarrow> is_main_contract p"
  unfolding spec_is_main_def is_main_contract_iff
  using path_segments_sublist [of "''src''" p] by simp

lemma spec_is_main_examples:
  "spec_is_main ''src/foo.sol''"
  "\<not> spec_is_main ''src/foo.t.sol''"
  "\<not> spec_is_main ''src/foo.s.sol''"
  by (simp_all add: spec_is_main_def basename_def suffix_to_prefix)

text \<open>
  Claim C1. The claim asks for a \<^verbatim>\<open>src/\<close> segment in the path, and the comment at
  the test says \<^verbatim>\<open>in src directory\<close>; the test itself is \<^verbatim>\<open>'src/' in file_path\<close>,
  which also holds when \<^verbatim>\<open>src/\<close> is the end of a longer directory name. The file
  \<^verbatim>\<open>mysrc/foo.sol\<close> has no directory named \<open>src\<close>, is not main in the words of the
  specification, and is put in \<^verbatim>\<open>main_contracts\<close>.
\<close>

theorem classification_src_substring:
  "\<not> spec_is_main ''mysrc/foo.sol'' \<and>
   classify [(''mysrc/foo.sol'', ''https://h/foo.sol'')] ([], []) =
     ([(''mysrc/foo.sol'', ''https://h/foo.sol'')], [])"
  by (simp add: spec_is_main_def is_main_contract_def startswith_def endswith_def)

subsection \<open>The size budget of the second loop\<close>

lemma section_not_notice:
  "fetch_section supporting_output net headers f \<noteq> limit_notice"
  by (simp add: fetch_section_def supporting_output_def error_status_def error_exception_def
      limit_notice_def split: sum.split)

lemma handled_le: "handled net headers fs total_chars \<le> length fs"
  by (induction fs arbitrary: total_chars) auto

lemma handled_first:
  assumes "j < length fs"
    and "total_chars + sum_list (map (fetch_chars supporting_output net headers) (take j fs)) > 100000"
    and "\<forall>i<j. total_chars + sum_list (map (fetch_chars supporting_output net headers) (take i fs)) \<le> 100000"
  shows "handled net headers fs total_chars = j"
  using assms
proof (induction fs arbitrary: j total_chars)
  case Nil
  then show ?case by simp
next
  case (Cons f fs)
  show ?case
  proof (cases j)
    case 0
    with Cons.prems show ?thesis by simp
  next
    case (Suc j')
    from Cons.prems(3) Suc have le: "total_chars \<le> 100000"
      by (metis add.right_neutral list.simps(8) sum_list.Nil take_0 zero_less_Suc)
    have a: "j' < length fs" using Cons.prems(1) Suc by simp
    have b: "total_chars + fetch_chars supporting_output net headers f
               + sum_list (map (fetch_chars supporting_output net headers) (take j' fs)) > 100000"
      using Cons.prems(2) Suc by (simp add: add.assoc)
    have c: "\<forall>i<j'. total_chars + fetch_chars supporting_output net headers f
               + sum_list (map (fetch_chars supporting_output net headers) (take i fs)) \<le> 100000"
    proof (intro allI impI)
      fix i assume "i < j'"
      then have "Suc i < j" using Suc by simp
      with Cons.prems(3) show "total_chars + fetch_chars supporting_output net headers f
               + sum_list (map (fetch_chars supporting_output net headers) (take i fs)) \<le> 100000"
        by (auto simp: add.assoc dest!: spec [where x = "Suc i"])
    qed
    from Cons.IH [OF a b c] le Suc show ?thesis by simp
  qed
qed

lemma handled_all:
  assumes "\<forall>i<length fs.
             total_chars + sum_list (map (fetch_chars supporting_output net headers) (take i fs))
               \<le> 100000"
  shows "handled net headers fs total_chars = length fs"
  using assms
proof (induction fs arbitrary: total_chars)
  case Nil
  then show ?case by simp
next
  case (Cons f fs)
  from Cons.prems have le: "total_chars \<le> 100000"
    by (auto dest!: spec [where x = 0])
  have "\<forall>i<length fs.
          total_chars + fetch_chars supporting_output net headers f +
            sum_list (map (fetch_chars supporting_output net headers) (take i fs)) \<le> 100000"
  proof (intro allI impI)
    fix i assume "i < length fs"
    then have "Suc i < length (f # fs)" by simp
    with Cons.prems show "total_chars + fetch_chars supporting_output net headers f +
            sum_list (map (fetch_chars supporting_output net headers) (take i fs)) \<le> 100000"
      by (auto simp: add.assoc dest!: spec [where x = "Suc i"])
  qed
  from Cons.IH [OF this] le show ?case by simp
qed

text \<open>
  Claim C2, as the code has it. The counter is tested before each supporting file.
  Let \<open>j\<close> be the first position at which the counter, after the \<open>j\<close> files before
  it, is above 100000, with files remaining from there. Then exactly those \<open>j\<close>
  files are fetched and rendered, every remaining file is skipped (no section, no
  request), and the notice is appended once, as the last element; no file section is
  equal to the notice. When the counter is not above 100000 before any supporting
  file, every supporting file is handled and no notice is appended, also when the
  last file takes the counter above 100000. The loop over the main files renders a
  section for every main file, whatever the counter is.
\<close>

theorem budget_break:
  assumes "j < length other_files"
    and "total_chars +
           sum_list (map (fetch_chars supporting_output net headers) (take j other_files)) > 100000"
    and "\<forall>i<j. total_chars +
           sum_list (map (fetch_chars supporting_output net headers) (take i other_files)) \<le> 100000"
  shows "process_other net headers other_files (results, total_chars, tr) =
           (results @ map (fetch_section supporting_output net headers) (take j other_files) @
              [limit_notice],
            total_chars +
              sum_list (map (fetch_chars supporting_output net headers) (take j other_files)),
            tr @ map (\<lambda>f. file_request headers (snd f)) (take j other_files)) \<and>
         limit_notice \<notin> set (map (fetch_section supporting_output net headers) (take j other_files)) \<and>
         fst (process_main net headers main_contracts (results, total_chars, tr)) =
           results @ map (fetch_section main_output net headers) main_contracts \<and>
         ((\<forall>i<length fs.
             total' + sum_list (map (fetch_chars supporting_output net headers) (take i fs))
               \<le> 100000) \<longrightarrow>
          process_other net headers fs (results, total', tr) =
            (results @ map (fetch_section supporting_output net headers) fs,
             total' + sum_list (map (fetch_chars supporting_output net headers) fs),
             tr @ map (\<lambda>f. file_request headers (snd f)) fs) \<and>
          limit_notice \<notin> set (map (fetch_section supporting_output net headers) fs))"
proof -
  have k: "handled net headers other_files total_chars = j"
    using assms by (rule handled_first)
  have 1: "process_other net headers other_files (results, total_chars, tr) =
           (results @ map (fetch_section supporting_output net headers) (take j other_files) @
              [limit_notice],
            total_chars +
              sum_list (map (fetch_chars supporting_output net headers) (take j other_files)),
            tr @ map (\<lambda>f. file_request headers (snd f)) (take j other_files))"
    using assms(1) by (simp add: process_other_eq k)
  have n: "limit_notice \<notin> set (map (fetch_section supporting_output net headers) xs)" for xs
    using section_not_notice by (metis (no_types, lifting) imageE list.set_map)
  have 3: "fst (process_main net headers main_contracts (results, total_chars, tr)) =
           results @ map (fetch_section main_output net headers) main_contracts"
    by (simp add: process_main_eq)
  have 4: "(\<forall>i<length fs.
             total' + sum_list (map (fetch_chars supporting_output net headers) (take i fs))
               \<le> 100000) \<longrightarrow>
          process_other net headers fs (results, total', tr) =
            (results @ map (fetch_section supporting_output net headers) fs,
             total' + sum_list (map (fetch_chars supporting_output net headers) fs),
             tr @ map (\<lambda>f. file_request headers (snd f)) fs)"
    by (simp add: process_other_eq handled_all)
  show ?thesis using 1 n 3 4 by blast
qed

theorem budget_break_witness:
  "process_other ok_net [] [(''test/a.t.sol'', ''u''), (''test/b.t.sol'', ''v'')]
     ([''s''], 100000, []) =
     ([''s'', supporting_output ''test/a.t.sol'' ''x'', limit_notice],
      100000 + length (supporting_output ''test/a.t.sol'' ''x''),
      [file_request [] ''u''])"
proof -
  have f: "fetch_chars supporting_output ok_net [] (''test/a.t.sol'', ''u'') =
             length (supporting_output ''test/a.t.sol'' ''x'')"
    by (simp add: fetch_chars_def ok_net_def)
  have s: "fetch_section supporting_output ok_net [] (''test/a.t.sol'', ''u'') =
             supporting_output ''test/a.t.sol'' ''x''"
    by (simp add: fetch_section_def ok_net_def)
  have a: "Suc 0 < length [(''test/a.t.sol'', ''u''), (''test/b.t.sol'', ''v'')]" by simp
  have b: "100000 + sum_list (map (fetch_chars supporting_output ok_net [])
             (take (Suc 0) [(''test/a.t.sol'', ''u''), (''test/b.t.sol'', ''v'')])) > (100000::nat)"
    by (simp add: f supporting_output_def)
  have c: "\<forall>i<Suc 0. 100000 + sum_list (map (fetch_chars supporting_output ok_net [])
             (take i [(''test/a.t.sol'', ''u''), (''test/b.t.sol'', ''v'')])) \<le> (100000::nat)"
    by simp
  show ?thesis
    using budget_break [OF a b c, of "[''s'']" "[]" "[]"] by (simp add: f s)
qed

text \<open>
  Claim C2 as stated fails: a single supporting file takes the counter from 100000
  to 100083, above the threshold, and the loop ends with no notice.
\<close>

theorem budget_break_counterexample:
  "process_other ok_net [] [(''test/a.t.sol'', ''u'')] ([''s''], 100000, []) =
     ([''s'',
       ''\<newline>=== SUPPORTING FILE: test/a.t.sol ===\<newline>File size: 1 characters\<newline>Complete content:\<newline>x\<newline>''],
      100083, [file_request [] ''u'']) \<and>
   limit_notice \<notin>
     set (fst (process_other ok_net [] [(''test/a.t.sol'', ''u'')] ([''s''], 100000, [])))"
proof -
  have 1: "process_other ok_net [] [(''test/a.t.sol'', ''u'')] ([''s''], 100000, []) =
     ([''s'',
       ''\<newline>=== SUPPORTING FILE: test/a.t.sol ===\<newline>File size: 1 characters\<newline>Complete content:\<newline>x\<newline>''],
      100083, [file_request [] ''u''])"
    by (simp add: ok_net_def supporting_output_def str_nat.simps digit_char_def Let_def)
  show ?thesis unfolding 1 by (simp add: limit_notice_def)
qed

subsection \<open>One iteration of a file loop\<close>

lemma fetch_section_ok:
  assumes "net (file_request headers u) = Inr r" and "status_code r = 200"
  shows "fetch_section render_ok net headers (p, u) = render_ok p (body_text r)"
    and "fetch_chars render_ok net headers (p, u) = length (render_ok p (body_text r))"
  using assms by (simp_all add: fetch_section_def fetch_chars_def)

lemma fetch_section_fails:
  assumes "fetch_fails net (file_request headers u)"
  shows "fetch_section render_ok net headers (p, u) =
           (case net (file_request headers u) of
              Inl e \<Rightarrow> error_exception p e
            | Inr r \<Rightarrow> error_status p (status_code r))"
    and "fetch_chars render_ok net headers (p, u) = 0"
  using assms by (simp_all add: fetch_section_def fetch_chars_def fetch_fails_def split: sum.splits)

lemma process_main_step:
  "process_main net headers ((p, u) # rest) (results, total_chars, tr) =
     process_main net headers rest
       (results @ [fetch_section main_output net headers (p, u)],
        total_chars + fetch_chars main_output net headers (p, u),
        tr @ [file_request headers u])"
  by (simp add: fetch_section_def fetch_chars_def Let_def split: sum.split)

lemma process_other_step:
  "total_chars \<le> 100000 \<Longrightarrow>
   process_other net headers ((p, u) # rest) (results, total_chars, tr) =
     process_other net headers rest
       (results @ [fetch_section supporting_output net headers (p, u)],
        total_chars + fetch_chars supporting_output net headers (p, u),
        tr @ [file_request headers u])"
  by (simp add: fetch_section_def fetch_chars_def Let_def split: sum.split)

subsection \<open>Discovery\<close>

lemma find_fails:
  assumes "fetch_fails net \<lparr>req_url = api_url owner repo path, req_headers = list_headers headers\<rparr>"
  shows "fst (find_solidity_files net depth owner repo path headers) = []"
  using assms by (cases depth) (auto simp: fetch_fails_def split: sum.splits)

lemma scan_items_skip:
  assumes "item_type it = ''dir''" and "fst (recurse (item_path it)) = []"
  shows "fst (scan_items recurse (before @ Entry it # after)) =
         fst (scan_items recurse (before @ after))"
proof (induction before)
  case Nil
  show ?case using assms by (auto simp: Let_def split: prod.splits)
next
  case (Cons e before)
  show ?case
  proof (cases e)
    case Broken
    then show ?thesis by simp
  next
    case (Entry x)
    with Cons.IH show ?thesis by (auto simp: Let_def split: prod.splits)
  qed
qed

lemma scan_items_append:
  assumes "Broken \<notin> set pre"
  shows "fst (scan_items recurse (pre @ rest)) =
         fst (scan_items recurse pre) @ fst (scan_items recurse rest)"
  using assms
proof (induction pre)
  case Nil
  show ?case by simp
next
  case (Cons e pre)
  then obtain x where e: "e = Entry x" by (cases e) auto
  from Cons have "fst (scan_items recurse (pre @ rest)) =
         fst (scan_items recurse pre) @ fst (scan_items recurse rest)"
    by simp
  then show ?case
    unfolding e by (auto simp: Let_def split: prod.splits)
qed

lemma scan_items_dir:
  assumes "item_type it = ''dir''"
  shows "fst (scan_items recurse (Entry it # rest)) =
         fst (recurse (item_path it)) @ fst (scan_items recurse rest)"
  using assms by (auto simp: Let_def split: prod.splits)

lemma scan_items_file:
  assumes "item_type it = ''file''" and "endswith (item_name it) ''.sol''"
  shows "fst (scan_items recurse (Entry it # rest)) =
         (item_path it, item_download_url it) # fst (scan_items recurse rest)"
  using assms by (auto simp: Let_def split: prod.splits)

lemma find_listed:
  assumes "net \<lparr>req_url = api_url owner repo path, req_headers = list_headers headers\<rparr> =
             Inr response"
    and "status_code response = 200"
    and "body_json response = Inr contents"
  shows "fst (find_solidity_files net (Suc depth) owner repo path headers) =
         fst (scan_items (\<lambda>p. find_solidity_files net depth owner repo p headers) contents)"
  using assms by (auto simp: Let_def split: prod.splits)

text \<open>
  Claim C8. When the listing of a directory fails (the request raises, or the status
  is not 200), the call for that directory makes that one request and returns no
  file. In the listing that contains the directory, the files found are those found
  without that entry, and the entries around it are still scanned: a sibling
  directory contributes the files of its own call, a sibling Solidity file
  contributes itself, in the order of the listing. A directory whose listing
  succeeds yields the files of the scan of its entries. Nothing is raised: the
  result is a list in every case.
\<close>

theorem listing_failure_drops_subtree:
  assumes "fetch_fails net
             \<lparr>req_url = api_url owner repo (item_path it), req_headers = list_headers headers\<rparr>"
    and "item_type it = ''dir''"
  shows "find_solidity_files net (Suc depth) owner repo (item_path it) headers =
           ([], [\<lparr>req_url = api_url owner repo (item_path it),
                  req_headers = list_headers headers\<rparr>]) \<and>
         fst (scan_items (\<lambda>p. find_solidity_files net depth owner repo p headers)
                (before @ Entry it # after)) =
         fst (scan_items (\<lambda>p. find_solidity_files net depth owner repo p headers)
                (before @ after)) \<and>
         (Broken \<notin> set pre \<and> item_type sib = ''dir'' \<and>
          before @ after = pre @ Entry sib # post \<longrightarrow>
            fst (scan_items (\<lambda>p. find_solidity_files net depth owner repo p headers)
                   (before @ Entry it # after)) =
            fst (scan_items (\<lambda>p. find_solidity_files net depth owner repo p headers) pre) @
            fst (find_solidity_files net depth owner repo (item_path sib) headers) @
            fst (scan_items (\<lambda>p. find_solidity_files net depth owner repo p headers) post)) \<and>
         (Broken \<notin> set pre \<and> item_type sib = ''file'' \<and> endswith (item_name sib) ''.sol'' \<and>
          before @ after = pre @ Entry sib # post \<longrightarrow>
            fst (scan_items (\<lambda>p. find_solidity_files net depth owner repo p headers)
                   (before @ Entry it # after)) =
            fst (scan_items (\<lambda>p. find_solidity_files net depth owner repo p headers) pre) @
            (item_path sib, item_download_url sib) #
            fst (scan_items (\<lambda>p. find_solidity_files net depth owner repo p headers) post)) \<and>
         (net \<lparr>req_url = api_url owner repo path, req_headers = list_headers headers\<rparr> =
            Inr response \<and>
          status_code response = 200 \<and> body_json response = Inr contents \<longrightarrow>
            fst (find_solidity_files net (Suc depth) owner repo path headers) =
            fst (scan_items (\<lambda>p. find_solidity_files net depth owner repo p headers) contents))"
proof -
  let ?scan = "scan_items (\<lambda>p. find_solidity_files net depth owner repo p headers)"
  have 1: "find_solidity_files net (Suc depth) owner repo (item_path it) headers =
           ([], [\<lparr>req_url = api_url owner repo (item_path it),
                  req_headers = list_headers headers\<rparr>])"
    using assms(1) by (auto simp: fetch_fails_def split: sum.splits)
  have "fst (find_solidity_files net depth owner repo (item_path it) headers) = []"
    using assms(1) by (rule find_fails)
  then have 2: "fst (?scan (before @ Entry it # after)) = fst (?scan (before @ after))"
    using assms(2) by (intro scan_items_skip) simp_all
  have 3: "Broken \<notin> set pre \<and> item_type sib = ''dir'' \<and>
          before @ after = pre @ Entry sib # post \<longrightarrow>
            fst (?scan (before @ Entry it # after)) =
            fst (?scan pre) @
            fst (find_solidity_files net depth owner repo (item_path sib) headers) @
            fst (?scan post)"
  proof (intro impI, elim conjE)
    assume b: "Broken \<notin> set pre" and d: "item_type sib = ''dir''"
      and e: "before @ after = pre @ Entry sib # post"
    show "fst (?scan (before @ Entry it # after)) =
            fst (?scan pre) @
            fst (find_solidity_files net depth owner repo (item_path sib) headers) @
            fst (?scan post)"
      unfolding 2 e scan_items_append [OF b] scan_items_dir [OF d] by (rule refl)
  qed
  have 4: "Broken \<notin> set pre \<and> item_type sib = ''file'' \<and> endswith (item_name sib) ''.sol'' \<and>
          before @ after = pre @ Entry sib # post \<longrightarrow>
            fst (?scan (before @ Entry it # after)) =
            fst (?scan pre) @ (item_path sib, item_download_url sib) # fst (?scan post)"
  proof (intro impI, elim conjE)
    assume b: "Broken \<notin> set pre" and d: "item_type sib = ''file''"
      and n: "endswith (item_name sib) ''.sol''"
      and e: "before @ after = pre @ Entry sib # post"
    show "fst (?scan (before @ Entry it # after)) =
            fst (?scan pre) @ (item_path sib, item_download_url sib) # fst (?scan post)"
      unfolding 2 e scan_items_append [OF b] scan_items_file [OF d n] by (rule refl)
  qed
  have 5: "net \<lparr>req_url = api_url owner repo path, req_headers = list_headers headers\<rparr> =
            Inr response \<and>
          status_code response = 200 \<and> body_json response = Inr contents \<longrightarrow>
            fst (find_solidity_files net (Suc depth) owner repo path headers) =
            fst (?scan contents)"
    using find_listed by blast
  show ?thesis using 1 2 3 4 5 by blast
qed

theorem listing_failure_drops_subtree_witness:
  "fst (find_solidity_files tree_net (Suc (Suc 0)) ''o'' ''r'' [] []) =
     [(''a.sol'', ''https://h/a.sol''), (''src/c.sol'', ''https://h/c.sol''),
      (''b.sol'', ''https://h/b.sol'')]"
proof -
  let ?lib = "\<lparr>item_type = ''dir'', item_name = ''lib'', item_path = ''lib'',
                 item_download_url = []\<rparr>"
  let ?src = "\<lparr>item_type = ''dir'', item_name = ''src'', item_path = ''src'',
                 item_download_url = []\<rparr>"
  let ?a = "\<lparr>item_type = ''file'', item_name = ''a.sol'', item_path = ''a.sol'',
               item_download_url = ''https://h/a.sol''\<rparr>"
  let ?b = "\<lparr>item_type = ''file'', item_name = ''b.sol'', item_path = ''b.sol'',
               item_download_url = ''https://h/b.sol''\<rparr>"
  let ?scan = "scan_items (\<lambda>p. find_solidity_files tree_net (Suc 0) ''o'' ''r'' p [])"
  have f: "fetch_fails tree_net
             \<lparr>req_url = api_url ''o'' ''r'' (item_path ?lib), req_headers = list_headers []\<rparr>"
    by (simp add: fetch_fails_def tree_net_def api_url_def)
  have d: "item_type ?lib = ''dir''" by simp
  note t = listing_failure_drops_subtree [where net = tree_net and owner = "''o''"
        and repo = "''r''" and it = ?lib and headers = "[]" and depth = "Suc 0"
        and before = "[Entry ?a]" and after = "[Entry ?src, Entry ?b]"
        and pre = "[Entry ?a]" and sib = ?src and post = "[Entry ?b]", OF f d]
  have s: "fst (?scan ([Entry ?a] @ Entry ?lib # [Entry ?src, Entry ?b])) =
           fst (?scan [Entry ?a]) @
           fst (find_solidity_files tree_net (Suc 0) ''o'' ''r'' (item_path ?src) []) @
           fst (?scan [Entry ?b])"
  proof -
    have p: "Broken \<notin> set [Entry ?a] \<and> item_type ?src = ''dir'' \<and>
             [Entry ?a] @ [Entry ?src, Entry ?b] = [Entry ?a] @ Entry ?src # [Entry ?b]"
      by simp
    from t p show ?thesis by blast
  qed
  have c: "fst (find_solidity_files tree_net (Suc 0) ''o'' ''r'' (item_path ?src) []) =
           [(''src/c.sol'', ''https://h/c.sol'')]"
    by (simp add: tree_net_def api_url_def endswith_def)
  have r: "fst (find_solidity_files tree_net (Suc (Suc 0)) ''o'' ''r'' [] []) =
           fst (?scan ([Entry ?a] @ Entry ?lib # [Entry ?src, Entry ?b]))"
    by (simp add: tree_net_def api_url_def split: prod.split)
  show ?thesis
    unfolding r s c by (simp add: endswith_def)
qed

subsection \<open>The three ways \<^const>\<open>run\<close> returns\<close>

lemma run_invalid:
  assumes "url_match (rstrip_slash repo_url) = None"
  shows "run net github_token depth repo_url file_pattern = (invalid_url_message, [])"
  using assms by (simp add: run_def)

lemma run_no_files:
  assumes "url_match (rstrip_slash repo_url) = Some (owner, repo)"
    and "find_solidity_files net depth owner repo [] (make_headers github_token) = ([], tr0)"
  shows "run net github_token depth repo_url file_pattern = (no_files_message, tr0)"
  using assms by (simp add: run_def)

lemma run_files:
  assumes "url_match (rstrip_slash repo_url) = Some (owner, repo)"
    and "find_solidity_files net depth owner repo [] (make_headers github_token) =
           (solidity_files, tr0)"
    and "solidity_files \<noteq> []"
    and "render net (make_headers github_token) repo_url solidity_files tr0 =
           (summary, results, total_chars, tr)"
  shows "run net github_token depth repo_url file_pattern =
           (py_replace summary
              (final_summary_block summary
                 (length (snd (classify solidity_files ([], [])))) (length (concat results)))
              (concat results),
            tr)"
  using assms by (simp add: run_def Let_def)

subsection \<open>Failures\<close>

lemma run_all_fail:
  assumes "\<forall>req. fetch_fails net req"
  shows "fst (run net github_token depth repo_url file_pattern) = invalid_url_message \<or>
         fst (run net github_token depth repo_url file_pattern) = no_files_message"
proof (cases "url_match (rstrip_slash repo_url)")
  case None
  then show ?thesis by (simp add: run_invalid)
next
  case (Some m)
  obtain owner repo where m: "m = (owner, repo)" by (cases m)
  have "fst (find_solidity_files net depth owner repo [] (make_headers github_token)) = []"
    using assms by (intro find_fails) simp
  then obtain tr0 where
    "find_solidity_files net depth owner repo [] (make_headers github_token) = ([], tr0)"
    by (cases "find_solidity_files net depth owner repo [] (make_headers github_token)") simp
  with Some m show ?thesis by (simp add: run_no_files)
qed

subsection \<open>The rendered document\<close>

lemma render_eq:
  assumes "classify solidity_files ([], []) = (main_contracts, other_files)"
  shows "render net headers repo_url solidity_files tr0 =
     (let summary = summary_block repo_url (length solidity_files)
                      (length main_contracts) (length other_files);
          t1 = sum_list (map (fetch_chars main_output net headers) main_contracts);
          k = handled net headers other_files t1
      in (summary,
          [summary] @ map (fetch_section main_output net headers) main_contracts @
            map (fetch_section supporting_output net headers) (take k other_files) @
            (if k < length other_files then [limit_notice] else []),
          t1 + sum_list (map (fetch_chars supporting_output net headers) (take k other_files)),
          tr0 @ map (\<lambda>f. file_request headers (snd f)) main_contracts @
            map (\<lambda>f. file_request headers (snd f)) (take k other_files)))"
  using assms by (simp add: render_def process_main_eq process_other_eq Let_def)




subsection \<open>Facts about \<^const>\<open>py_replace\<close>\<close>

lemma py_replace_Nil: "old \<noteq> [] \<Longrightarrow> py_replace old new [] = []"
  by (simp add: py_replace.simps)

lemma py_replace_prefix:
  "old \<noteq> [] \<Longrightarrow> py_replace old new (old @ s) = new @ py_replace old new s"
  by (subst py_replace.simps) (simp add: startswith_def)

lemma py_replace_Cons:
  "old \<noteq> [] \<Longrightarrow> \<not> prefix old (c # s) \<Longrightarrow>
   py_replace old new (c # s) = c # py_replace old new s"
  by (subst py_replace.simps) (simp add: startswith_prefix)

lemma py_replace_absent:
  "old \<noteq> [] \<Longrightarrow> \<not> sublist old s \<Longrightarrow> py_replace old new s = s"
proof (induction s)
  case Nil
  then show ?case by (simp add: py_replace_Nil)
next
  case (Cons c s)
  from Cons.prems(2) have "\<not> prefix old (c # s)" and "\<not> sublist old s"
    by (auto simp: sublist_Cons_right)
  with Cons show ?case by (simp add: py_replace_Cons)
qed

lemma py_replace_length:
  "length old \<le> length new \<Longrightarrow> length s \<le> length (py_replace old new s)"
proof (induction old new s rule: py_replace.induct)
  case (1 old new s)
  show ?case
  proof (cases "old = []")
    case True
    have "length s \<le> length (concat (map (\<lambda>c. c # new) s))"
      by (induction s) auto
    with True show ?thesis by (subst py_replace.simps) simp
  next
    case False
    show ?thesis
    proof (cases "s = []")
      case True
      then show ?thesis by simp
    next
      case ne: False
      show ?thesis
      proof (cases "startswith s old")
        case True
        then have s: "s = old @ drop (length old) s"
          by (metis append_take_drop_id startswith_def)
        have "length (drop (length old) s) \<le> length (py_replace old new (drop (length old) s))"
          using 1(1) [OF False ne True] 1(3) by simp
        moreover have "py_replace old new s =
                         new @ py_replace old new (drop (length old) s)"
          using False ne True by (subst py_replace.simps) simp
        ultimately show ?thesis using 1(3) s
          by (metis add_mono length_append)
      next
        case nsw: False
        have "length (tl s) \<le> length (py_replace old new (tl s))"
          using 1(2) [OF False ne nsw] 1(3) by simp
        moreover have "py_replace old new s = hd s # py_replace old new (tl s)"
          using False ne nsw by (subst py_replace.simps) simp
        ultimately show ?thesis using ne by (cases s) simp_all
      qed
    qed
  qed
qed

lemma py_replace_present:
  assumes "old \<noteq> []" and "sublist old s"
  shows "sublist new (py_replace old new s)"
  using assms(2)
proof (induction s)
  case Nil
  with assms(1) show ?case by simp
next
  case (Cons c s)
  show ?case
  proof (cases "prefix old (c # s)")
    case True
    then obtain r where r: "c # s = old @ r" by (auto simp: prefix_def)
    have e: "py_replace old new (c # s) = new @ py_replace old new r"
      unfolding r using assms(1) by (rule py_replace_prefix)
    show ?thesis unfolding e by simp
  next
    case False
    with Cons.prems have "sublist old s" by (auto simp: sublist_Cons_right)
    with Cons.IH have ih: "sublist new (py_replace old new s)" by simp
    have e: "py_replace old new (c # s) = c # py_replace old new s"
      using assms(1) False by (rule py_replace_Cons)
    show ?thesis unfolding e using ih by (simp add: sublist_Cons_right)
  qed
qed

lemma py_replace_longer:
  assumes "old \<noteq> []" and "length old \<le> length new" and "sublist old s"
  shows "length s + length new \<le> length (py_replace old new s) + length old"
  using assms(3)
proof (induction s)
  case Nil
  with assms(1) show ?case by simp
next
  case (Cons c s)
  show ?case
  proof (cases "prefix old (c # s)")
    case True
    then obtain r where r: "c # s = old @ r" by (auto simp: prefix_def)
    have e: "py_replace old new (c # s) = new @ py_replace old new r"
      unfolding r using assms(1) by (rule py_replace_prefix)
    have "length r \<le> length (py_replace old new r)"
      using assms(2) by (rule py_replace_length)
    moreover have "length (c # s) = length old + length r"
      using r by (metis length_append)
    ultimately show ?thesis unfolding e by simp
  next
    case False
    with Cons.prems have "sublist old s" by (auto simp: sublist_Cons_right)
    with Cons.IH have ih: "length s + length new \<le> length (py_replace old new s) + length old"
      by simp
    have e: "py_replace old new (c # s) = c # py_replace old new s"
      using assms(1) False by (rule py_replace_Cons)
    show ?thesis unfolding e using ih by simp
  qed
qed

subsection \<open>The patched summary\<close>

lemma summary_block_not_Nil: "summary_block repo_url a b c \<noteq> []"
  by (simp add: summary_block_def)

lemma summary_block_supporting: "sublist ''Supporting files:'' (summary_block repo_url a b c)"
proof -
  have "summary_block repo_url a b c =
          (''=== REPOSITORY ANALYSIS SUMMARY ===\<newline>'' @
           ''Repository: '' @ repo_url @ ''\<newline>'' @
           ''Total files found: '' @ str_nat a @ ''\<newline>'' @
           ''Main contracts: '' @ str_nat b @ ''\<newline>'') @
          ''Supporting files:'' @ ('' '' @ str_nat c @ ''\<newline>\<newline>'')"
    by (simp add: summary_block_def)
  then show ?thesis
    unfolding sublist_def by blast
qed

lemma render_results:
  assumes "render net headers repo_url solidity_files tr0 = (summary, results, total_chars, tr)"
  shows "\<exists>sections. results = summary # sections \<and>
           summary = summary_block repo_url (length solidity_files)
             (length (fst (classify solidity_files ([], []))))
             (length (snd (classify solidity_files ([], []))))"
proof -
  obtain ms os where c: "classify solidity_files ([], []) = (ms, os)"
    by (cases "classify solidity_files ([], [])")
  show ?thesis
    using assms unfolding render_eq [OF c] c by (auto simp: Let_def)
qed

lemma final_summary_block_facts:
  assumes "sublist ''Supporting files:'' summary"
  shows "sublist (''Total output size: '' @ str_nat n_output @ '' characters\<newline>'')
           (final_summary_block summary n_other n_output)"
    and "length summary < length (final_summary_block summary n_other n_output)"
proof -
  let ?new = "''Supporting files: '' @ str_nat n_other @ ''\<newline>Total output size: '' @
        str_nat n_output @ '' characters\<newline>''"
  have new: "?new = (''Supporting files: '' @ str_nat n_other @ ''\<newline>'') @
        (''Total output size: '' @ str_nat n_output @ '' characters\<newline>'') @ []"
    by simp
  have "sublist (''Total output size: '' @ str_nat n_output @ '' characters\<newline>'') ?new"
    by (subst new) (rule sublist_appendI)
  moreover have "sublist ?new (final_summary_block summary n_other n_output)"
    unfolding final_summary_block_def
    by (rule py_replace_present) (use assms in simp_all)
  ultimately show "sublist (''Total output size: '' @ str_nat n_output @ '' characters\<newline>'')
           (final_summary_block summary n_other n_output)"
    by (rule sublist_order.order.trans)
  have "length summary + length ?new \<le>
          length (final_summary_block summary n_other n_output) + length ''Supporting files:''"
    unfolding final_summary_block_def
    by (rule py_replace_longer) (use assms in simp_all)
  then show "length summary < length (final_summary_block summary n_other n_output)"
    by simp
qed

lemma run_document:
  assumes "url_match (rstrip_slash repo_url) = Some (owner, repo)"
    and "find_solidity_files net depth owner repo [] (make_headers github_token) =
           (solidity_files, tr0)"
    and "solidity_files \<noteq> []"
    and "render net (make_headers github_token) repo_url solidity_files tr0 =
           (summary, summary # sections, total_chars, tr)"
  shows "fst (run net github_token depth repo_url file_pattern) =
           final_summary_block summary (length (snd (classify solidity_files ([], []))))
             (length (summary @ concat sections)) @
           py_replace summary
             (final_summary_block summary (length (snd (classify solidity_files ([], []))))
                (length (summary @ concat sections)))
             (concat sections)"
proof -
  have "summary \<noteq> []"
    using render_results [OF assms(4)] summary_block_not_Nil by auto
  then show ?thesis
    unfolding run_files [OF assms] by (simp add: py_replace_prefix)
qed

text \<open>
  Claim C6, as the code has it. The size written into the summary is the length of
  the joined results before the summary is patched; the returned document, in which
  the summary has grown by the inserted line, is longer than that.
\<close>

theorem reported_size:
  assumes "url_match (rstrip_slash repo_url) = Some (owner, repo)"
    and "find_solidity_files net depth owner repo [] (make_headers github_token) =
           (solidity_files, tr0)"
    and "solidity_files \<noteq> []"
    and "render net (make_headers github_token) repo_url solidity_files tr0 =
           (summary, results, total_chars, tr)"
  shows "fst (run net github_token depth repo_url file_pattern) =
           py_replace summary
             (final_summary_block summary (length (snd (classify solidity_files ([], []))))
                (length (concat results)))
             (concat results) \<and>
         sublist (''Total output size: '' @ str_nat (length (concat results)) @
                  '' characters\<newline>'')
           (fst (run net github_token depth repo_url file_pattern)) \<and>
         length (concat results) <
           length (fst (run net github_token depth repo_url file_pattern))"
proof -
  obtain sections where r: "results = summary # sections"
    and s: "summary = summary_block repo_url (length solidity_files)
             (length (fst (classify solidity_files ([], []))))
             (length (snd (classify solidity_files ([], []))))"
    using render_results [OF assms(4)] by blast
  let ?final = "final_summary_block summary (length (snd (classify solidity_files ([], []))))
                (length (concat results))"
  have sup: "sublist ''Supporting files:'' summary"
    unfolding s by (rule summary_block_supporting)
  have doc: "fst (run net github_token depth repo_url file_pattern) =
               ?final @ py_replace summary ?final (concat sections)"
    using run_document [OF assms(1-3) assms(4) [unfolded r]] by (simp add: r)
  have 1: "fst (run net github_token depth repo_url file_pattern) =
             py_replace summary ?final (concat results)"
    by (simp add: run_files [OF assms])
  have "sublist (''Total output size: '' @ str_nat (length (concat results)) @
                  '' characters\<newline>'') ?final"
    using sup by (rule final_summary_block_facts(1))
  moreover have "sublist ?final (?final @ py_replace summary ?final (concat sections))"
    by simp
  ultimately have 2: "sublist (''Total output size: '' @ str_nat (length (concat results)) @
                  '' characters\<newline>'')
           (fst (run net github_token depth repo_url file_pattern))"
    unfolding doc by (rule sublist_order.order.trans)
  have l: "length summary < length ?final"
    using sup by (rule final_summary_block_facts(2))
  then have "length (concat sections) \<le> length (py_replace summary ?final (concat sections))"
    by (intro py_replace_length) simp
  with l have 3: "length (concat results) <
           length (fst (run net github_token depth repo_url file_pattern))"
    unfolding doc r by simp
  show ?thesis using 1 2 3 by blast
qed

subsection \<open>A run on the repository with one file\<close>

lemma str_nat_digit: "n < 10 \<Longrightarrow> str_nat n = [digit_char n]"
  by (simp add: str_nat.simps)

lemma url_match_o_r: "url_match (rstrip_slash ''https://github.com/o/r'') = Some (''o'', ''r'')"
  by (simp add: url_match_def rstrip_slash_def startswith_def not_slash_def)

lemma one_file_find:
  "find_solidity_files one_file_net (Suc 0) ''o'' ''r'' [] headers =
     ([(''src/a.sol'', ''https://api.github.com/repos/o/r/contents/src/a.sol'')],
      [\<lparr>req_url = ''https://api.github.com/repos/o/r/contents/'',
        req_headers = list_headers headers\<rparr>])"
  by (simp add: one_file_net_def api_url_def endswith_def)

lemma one_file_classify:
  "classify [(''src/a.sol'', ''https://api.github.com/repos/o/r/contents/src/a.sol'')] ([], []) =
     ([(''src/a.sol'', ''https://api.github.com/repos/o/r/contents/src/a.sol'')], [])"
  by (simp add: is_main_contract_def startswith_def endswith_def)

lemma one_file_raw_url:
  "raw_url ''https://api.github.com/repos/o/r/contents/src/a.sol'' =
     ''https://raw.githubusercontent.com/o/r/src/a.sol''"
  by (simp add: raw_url_def py_replace.simps startswith_def)

lemma one_file_render:
  "render one_file_net headers ''https://github.com/o/r''
     [(''src/a.sol'', ''https://api.github.com/repos/o/r/contents/src/a.sol'')] tr0 =
     (''=== REPOSITORY ANALYSIS SUMMARY ===\<newline>Repository: https://github.com/o/r\<newline>Total files found: 1\<newline>Main contracts: 1\<newline>Supporting files: 0\<newline>\<newline>'',
      [''=== REPOSITORY ANALYSIS SUMMARY ===\<newline>Repository: https://github.com/o/r\<newline>Total files found: 1\<newline>Main contracts: 1\<newline>Supporting files: 0\<newline>\<newline>'',
       ''\<newline>=== MAIN CONTRACT: src/a.sol ===\<newline>Contract size: 1 characters\<newline>Complete source code:\<newline>x\<newline>''],
      86,
      tr0 @ [\<lparr>req_url = ''https://raw.githubusercontent.com/o/r/src/a.sol'',
              req_headers = [(''Authorization'', dict_get headers ''Authorization'' [])]\<rparr>])"
proof -
  have s: "fetch_section main_output one_file_net headers
             (''src/a.sol'', ''https://api.github.com/repos/o/r/contents/src/a.sol'') =
           ''\<newline>=== MAIN CONTRACT: src/a.sol ===\<newline>Contract size: 1 characters\<newline>Complete source code:\<newline>x\<newline>''"
    by (simp add: fetch_section_def file_request_def one_file_raw_url one_file_net_def
        main_output_def str_nat_digit digit_char_def)
  have c: "fetch_chars main_output one_file_net headers
             (''src/a.sol'', ''https://api.github.com/repos/o/r/contents/src/a.sol'') = 86"
    by (simp add: fetch_chars_def file_request_def one_file_raw_url one_file_net_def
        main_output_def str_nat_digit digit_char_def)
  show ?thesis
    unfolding render_eq [OF one_file_classify]
    by (simp add: s c Let_def summary_block_def str_nat_digit digit_char_def file_request_def
        one_file_raw_url)
qed

lemma one_file_length:
  "length (concat
     [''=== REPOSITORY ANALYSIS SUMMARY ===\<newline>Repository: https://github.com/o/r\<newline>Total files found: 1\<newline>Main contracts: 1\<newline>Supporting files: 0\<newline>\<newline>'',
      ''\<newline>=== MAIN CONTRACT: src/a.sol ===\<newline>Contract size: 1 characters\<newline>Complete source code:\<newline>x\<newline>'']) = 217"
  by simp

lemma str_nat_217: "str_nat 217 = ''217''"
  by (simp add: str_nat.simps digit_char_def)

theorem reported_size_witness:
  "sublist (''Total output size: '' @ ''217'' @ '' characters\<newline>'')
     (fst (run one_file_net None (Suc 0) ''https://github.com/o/r'' ''*.sol'')) \<and>
   217 < length (fst (run one_file_net None (Suc 0) ''https://github.com/o/r'' ''*.sol''))"
proof -
  have f: "[(''src/a.sol'', ''https://api.github.com/repos/o/r/contents/src/a.sol'')] \<noteq> []"
    by simp
  show ?thesis
    using reported_size [OF url_match_o_r one_file_find f one_file_render,
        where file_pattern = "''*.sol''"]
    unfolding one_file_length str_nat_217 by blast
qed

text \<open>
  Claim C6 as stated fails: on the repository with one file the summary of the
  returned document reports 217 characters, and the document has 254.
\<close>

theorem reported_size_counterexample:
  "fst (run one_file_net None (Suc 0) ''https://github.com/o/r'' ''*.sol'') =
     ''=== REPOSITORY ANALYSIS SUMMARY ===\<newline>Repository: https://github.com/o/r\<newline>Total files found: 1\<newline>Main contracts: 1\<newline>Supporting files: 0\<newline>Total output size: 217 characters\<newline> 0\<newline>\<newline>\<newline>=== MAIN CONTRACT: src/a.sol ===\<newline>Contract size: 1 characters\<newline>Complete source code:\<newline>x\<newline>'' \<and>
   length (fst (run one_file_net None (Suc 0) ''https://github.com/o/r'' ''*.sol'')) = 254"
proof -
  have f: "[(''src/a.sol'', ''https://api.github.com/repos/o/r/contents/src/a.sol'')] \<noteq> []"
    by simp
  have o: "length (snd (classify
             [(''src/a.sol'', ''https://api.github.com/repos/o/r/contents/src/a.sol'')]
             ([], []))) = 0"
    unfolding one_file_classify by simp
  have r: "fst (run one_file_net None (Suc 0) ''https://github.com/o/r'' ''*.sol'') =
     ''=== REPOSITORY ANALYSIS SUMMARY ===\<newline>Repository: https://github.com/o/r\<newline>Total files found: 1\<newline>Main contracts: 1\<newline>Supporting files: 0\<newline>Total output size: 217 characters\<newline> 0\<newline>\<newline>\<newline>=== MAIN CONTRACT: src/a.sol ===\<newline>Contract size: 1 characters\<newline>Complete source code:\<newline>x\<newline>''"
    unfolding run_files [OF url_match_o_r one_file_find f one_file_render] fst_conv
      o one_file_length final_summary_block_def str_nat_217
    by (simp add: str_nat_digit digit_char_def py_replace.simps startswith_def)
  show ?thesis unfolding r by simp
qed

subsection \<open>The headers of the requests\<close>

lemma list_headers_make:
  "list_headers (make_headers github_token) =
     (case github_token of
        None \<Rightarrow> []
      | Some tok \<Rightarrow> if tok \<noteq> [] then [(''Authorization'', ''token '' @ tok)] else [])"
  by (simp add: list_headers_def make_headers_def dict_set_def split: option.split)

lemma file_request_make:
  "file_request (make_headers github_token) download_url =
     \<lparr>req_url = raw_url download_url,
      req_headers =
        [(''Authorization'',
          case github_token of
            None \<Rightarrow> []
          | Some tok \<Rightarrow> if tok \<noteq> [] then ''token '' @ tok else [])]\<rparr>"
  by (simp add: file_request_def make_headers_def dict_set_def dict_get_def split: option.split)

lemma scan_items_trace:
  assumes "\<And>p r. r \<in> set (snd (recurse p)) \<Longrightarrow> P r"
    and "r \<in> set (snd (scan_items recurse contents))"
  shows "P r"
  using assms(2)
proof (induction contents)
  case Nil
  then show ?case by simp
next
  case (Cons e contents)
  show ?case
  proof (cases e)
    case Broken
    with Cons.prems show ?thesis by simp
  next
    case (Entry it)
    with Cons.prems Cons.IH assms(1) [of r "item_path it"] show ?thesis
      by (auto simp: Let_def split: prod.splits if_splits)
  qed
qed

lemma find_trace_headers:
  "r \<in> set (snd (find_solidity_files net depth owner repo path headers)) \<Longrightarrow>
   req_headers r = list_headers headers"
proof (induction depth arbitrary: path r)
  case 0
  then show ?case by simp
next
  case (Suc depth)
  let ?req = "\<lparr>req_url = api_url owner repo path, req_headers = list_headers headers\<rparr>"
  show ?case
  proof (cases "net ?req")
    case (Inl e)
    with Suc.prems show ?thesis by simp
  next
    case (Inr response)
    show ?thesis
    proof (cases "status_code response = 200")
      case False
      with Inr Suc.prems show ?thesis by simp
    next
      case True
      show ?thesis
      proof (cases "body_json response")
        case (Inl e)
        with Inr True Suc.prems show ?thesis by simp
      next
        case contents: (Inr contents)
        from Suc.prems Inr True contents
        have "r = ?req \<or>
              r \<in> set (snd (scan_items
                    (\<lambda>p. find_solidity_files net depth owner repo p headers) contents))"
          by (auto simp: Let_def split: prod.splits)
        then show ?thesis
        proof
          assume "r = ?req"
          then show ?thesis by simp
        next
          assume "r \<in> set (snd (scan_items
                    (\<lambda>p. find_solidity_files net depth owner repo p headers) contents))"
          then show ?thesis
            by (rule scan_items_trace [rotated]) (rule Suc.IH)
        qed
      qed
    qed
  qed
qed

text \<open>
  Claim C7, as the code has it. With a non-empty token in the environment, the
  listing requests carry \<^verbatim>\<open>Authorization: token <value>\<close> and nothing else, and so
  do the raw-content requests; with no token (or an empty one) the listing requests
  carry no header and the raw-content requests carry an empty
  \<^verbatim>\<open>Authorization\<close> header. The requests of a run that renders files are those of
  the discovery followed by one raw-content request, at the rewritten URL, for each
  file that is fetched.
\<close>

theorem token_on_requests:
  assumes "url_match (rstrip_slash repo_url) = Some (owner, repo)"
    and "find_solidity_files net depth owner repo [] (make_headers github_token) =
           (solidity_files, tr0)"
    and "solidity_files \<noteq> []"
    and "classify solidity_files ([], []) = (main_contracts, other_files)"
  shows "snd (run net github_token depth repo_url file_pattern) =
           tr0 @
           map (\<lambda>f. file_request (make_headers github_token) (snd f))
             (main_contracts @
              take (handled net (make_headers github_token) other_files
                      (sum_list (map (fetch_chars main_output net (make_headers github_token))
                                   main_contracts)))
                other_files) \<and>
         (\<forall>r \<in> set tr0.
            req_headers r =
              (case github_token of
                 None \<Rightarrow> []
               | Some tok \<Rightarrow>
                   if tok \<noteq> [] then [(''Authorization'', ''token '' @ tok)] else [])) \<and>
         (\<forall>download_url.
            file_request (make_headers github_token) download_url =
              \<lparr>req_url = raw_url download_url,
               req_headers =
                 [(''Authorization'',
                   case github_token of
                     None \<Rightarrow> []
                   | Some tok \<Rightarrow> if tok \<noteq> [] then ''token '' @ tok else [])]\<rparr>)"
proof -
  let ?hs = "make_headers github_token"
  obtain summary results total_chars tr where
    r: "render net ?hs repo_url solidity_files tr0 = (summary, results, total_chars, tr)"
    by (cases "render net ?hs repo_url solidity_files tr0") auto
  have "tr = tr0 @
           map (\<lambda>f. file_request ?hs (snd f))
             (main_contracts @
              take (handled net ?hs other_files
                      (sum_list (map (fetch_chars main_output net ?hs) main_contracts)))
                other_files)"
    using r unfolding render_eq [OF assms(4)] by (simp add: Let_def)
  then have 1: "snd (run net github_token depth repo_url file_pattern) =
           tr0 @
           map (\<lambda>f. file_request ?hs (snd f))
             (main_contracts @
              take (handled net ?hs other_files
                      (sum_list (map (fetch_chars main_output net ?hs) main_contracts)))
                other_files)"
    unfolding run_files [OF assms(1-3) r] by simp
  have "\<forall>r \<in> set tr0. req_headers r = list_headers ?hs"
    using find_trace_headers [of _ net depth owner repo "[]" ?hs] assms(2) by simp
  then have 2: "\<forall>r \<in> set tr0.
            req_headers r =
              (case github_token of
                 None \<Rightarrow> []
               | Some tok \<Rightarrow>
                   if tok \<noteq> [] then [(''Authorization'', ''token '' @ tok)] else [])"
    unfolding list_headers_make .
  show ?thesis using 1 2 file_request_make by blast
qed

theorem token_on_requests_witness:
  "snd (run one_file_net (Some ''T'') (Suc 0) ''https://github.com/o/r'' ''*.sol'') =
     [\<lparr>req_url = ''https://api.github.com/repos/o/r/contents/'',
       req_headers = [(''Authorization'', ''token T'')]\<rparr>,
      \<lparr>req_url = ''https://raw.githubusercontent.com/o/r/src/a.sol'',
       req_headers = [(''Authorization'', ''token T'')]\<rparr>]"
proof -
  have f: "[(''src/a.sol'', ''https://api.github.com/repos/o/r/contents/src/a.sol'')] \<noteq> []"
    by simp
  show ?thesis
    using token_on_requests [OF url_match_o_r one_file_find f one_file_classify,
        where file_pattern = "''*.sol''" and github_token = "Some ''T''"]
    by (simp add: list_headers_make one_file_raw_url)
qed

text \<open>
  Claim C7 as stated fails: the raw-content request of the same run carries
  \<^verbatim>\<open>Authorization: token T\<close> when the token \<open>T\<close> is in the environment and an empty
  \<^verbatim>\<open>Authorization\<close> header when there is none.
\<close>

theorem token_on_requests_counterexample:
  "last (snd (run one_file_net (Some ''T'') (Suc 0) ''https://github.com/o/r'' ''*.sol'')) =
     \<lparr>req_url = ''https://raw.githubusercontent.com/o/r/src/a.sol'',
      req_headers = [(''Authorization'', ''token T'')]\<rparr> \<and>
   last (snd (run one_file_net None (Suc 0) ''https://github.com/o/r'' ''*.sol'')) =
     \<lparr>req_url = ''https://raw.githubusercontent.com/o/r/src/a.sol'',
      req_headers = [(''Authorization'', [])]\<rparr>"
proof -
  have f: "[(''src/a.sol'', ''https://api.github.com/repos/o/r/contents/src/a.sol'')] \<noteq> []"
    by simp
  show ?thesis
    unfolding run_files [OF url_match_o_r one_file_find f one_file_render] snd_conv
    by (simp add: make_headers_def dict_set_def dict_get_def)
qed

subsection \<open>Validation of the URL\<close>

lemma takeWhile_not_slash:
  assumes "CHR ''/'' \<notin> set a"
  shows "takeWhile not_slash (a @ CHR ''/'' # b) = a"
    and "dropWhile not_slash (a @ CHR ''/'' # b) = CHR ''/'' # b"
  using assms by (induction a) (auto simp: not_slash_def)

lemma url_match_Some:
  assumes "url_match s = Some (owner, repo)"
  shows "\<exists>rest. s = ''https://github.com/'' @ owner @ ''/'' @ repo @ rest \<and>
           owner \<noteq> [] \<and> CHR ''/'' \<notin> set owner \<and> repo \<noteq> [] \<and> CHR ''/'' \<notin> set repo"
proof -
  define t where "t = drop (length ''https://github.com/'') s"
  from assms have sw: "startswith s ''https://github.com/''"
    unfolding url_match_def by (auto split: if_splits)
  then have s: "s = ''https://github.com/'' @ t"
    unfolding startswith_def t_def by (metis append_take_drop_id)
  have eq: "url_match s =
    (let owner = takeWhile not_slash t
      in if owner = [] then None
         else (case dropWhile not_slash t of
                 [] \<Rightarrow> None
               | c # u \<Rightarrow>
                   (let repo = takeWhile not_slash u
                    in if repo = [] then None else Some (owner, repo))))"
    using sw unfolding url_match_def t_def by (simp add: Let_def)
  have "(let owner = takeWhile not_slash t
      in if owner = [] then None
         else (case dropWhile not_slash t of
                 [] \<Rightarrow> None
               | c # u \<Rightarrow>
                   (let repo = takeWhile not_slash u
                    in if repo = [] then None else Some (owner, repo)))) = Some (owner, repo)"
    using assms unfolding eq .
  then obtain c u where
    o: "owner = takeWhile not_slash t" "owner \<noteq> []"
    and d: "dropWhile not_slash t = c # u"
    and r: "repo = takeWhile not_slash u" "repo \<noteq> []"
    by (auto simp: Let_def split: if_splits list.splits)
  have "\<not> not_slash (hd (dropWhile not_slash t))"
    by (rule hd_dropWhile) (simp add: d)
  then have c: "c = CHR ''/''"
    by (simp add: d not_slash_def)
  have "t = takeWhile not_slash t @ dropWhile not_slash t"
    by simp
  also have "\<dots> = owner @ CHR ''/'' # (takeWhile not_slash u @ dropWhile not_slash u)"
    unfolding o(1) d c by simp
  finally have t: "t = owner @ ''/'' @ repo @ dropWhile not_slash u"
    unfolding r(1) by simp
  have "CHR ''/'' \<notin> set owner" "CHR ''/'' \<notin> set repo"
    unfolding o(1) r(1) using set_takeWhileD [of "CHR ''/''" not_slash]
    by (auto simp: not_slash_def)
  with o(2) r(2) s t show ?thesis by metis
qed

lemma url_match_prefix_shape:
  assumes "owner \<noteq> []" and "CHR ''/'' \<notin> set owner"
    and "repo \<noteq> []" and "CHR ''/'' \<notin> set repo"
  shows "url_match (''https://github.com/'' @ owner @ ''/'' @ repo @ rest) \<noteq> None"
proof -
  obtain c repo' where repo: "repo = c # repo'" using assms(3) by (cases repo) auto
  have c: "not_slash c" using assms(4) repo by (auto simp: not_slash_def)
  have t: "takeWhile not_slash (owner @ CHR ''/'' # repo @ rest) = owner"
    "dropWhile not_slash (owner @ CHR ''/'' # repo @ rest) = CHR ''/'' # repo @ rest"
    using assms(2) by (rule takeWhile_not_slash)+
  have "takeWhile not_slash (repo @ rest) \<noteq> []"
    unfolding repo using c by simp
  then show ?thesis
    using assms(1) by (simp add: url_match_def startswith_def t Let_def)
qed

lemma url_match_None_iff:
  "url_match (rstrip_slash repo_url) = None \<longleftrightarrow> \<not> begins_with_url_shape repo_url"
proof
  assume n: "url_match (rstrip_slash repo_url) = None"
  show "\<not> begins_with_url_shape repo_url"
  proof
    assume "begins_with_url_shape repo_url"
    then obtain owner repo rest where
      "rstrip_slash repo_url = ''https://github.com/'' @ owner @ ''/'' @ repo @ rest"
      "owner \<noteq> []" "CHR ''/'' \<notin> set owner" "repo \<noteq> []" "CHR ''/'' \<notin> set repo"
      unfolding begins_with_url_shape_def by blast
    then have "url_match (rstrip_slash repo_url) \<noteq> None"
      using url_match_prefix_shape [of owner repo rest] by simp
    with n show False by simp
  qed
next
  assume n: "\<not> begins_with_url_shape repo_url"
  show "url_match (rstrip_slash repo_url) = None"
  proof (rule ccontr)
    assume "url_match (rstrip_slash repo_url) \<noteq> None"
    then obtain owner repo where "url_match (rstrip_slash repo_url) = Some (owner, repo)"
      by auto
    from url_match_Some [OF this] have "begins_with_url_shape repo_url"
      unfolding begins_with_url_shape_def by blast
    with n show False by simp
  qed
qed

lemma find_first_request:
  "snd (find_solidity_files net (Suc depth) owner repo path headers) \<noteq> []"
  by (auto simp: Let_def split: sum.splits prod.splits)

lemma run_trace_valid:
  assumes "url_match (rstrip_slash repo_url) = Some (owner, repo)"
  shows "snd (run net github_token (Suc depth) repo_url file_pattern) \<noteq> []"
proof -
  let ?hs = "make_headers github_token"
  obtain fs tr0 where f: "find_solidity_files net (Suc depth) owner repo [] ?hs = (fs, tr0)"
    by (cases "find_solidity_files net (Suc depth) owner repo [] ?hs")
  have tr0: "tr0 \<noteq> []"
    using find_first_request [of net depth owner repo "[]" ?hs] f by simp
  show ?thesis
  proof (cases "fs = []")
    case True
    with assms f tr0 show ?thesis by (simp add: run_no_files)
  next
    case False
    obtain ms os where c: "classify fs ([], []) = (ms, os)"
      by (cases "classify fs ([], [])")
    obtain summary results total_chars tr where
      r: "render net ?hs repo_url fs tr0 = (summary, results, total_chars, tr)"
      by (cases "render net ?hs repo_url fs tr0") auto
    have "tr \<noteq> []"
      using r tr0 unfolding render_eq [OF c] by (auto simp: Let_def)
    then show ?thesis
      unfolding run_files [OF assms f False r] by simp
  qed
qed

text \<open>
  Claim C5, as the code has it. \<^verbatim>\<open>re.match\<close> anchors the pattern at the start
  only. A URL that, its trailing slashes removed, does not begin with
  \<^verbatim>\<open>https://github.com/<owner>/<repo>\<close> gets the one error message, as a string, and
  no request is made. That is the only validation: every other URL leads to at
  least one request.
\<close>

theorem invalid_url_rejected:
  assumes "\<not> begins_with_url_shape repo_url"
  shows "run net github_token depth repo_url file_pattern =
           (''Error: Invalid GitHub URL format. Expected: https://github.com/owner/repo'', []) \<and>
         (begins_with_url_shape url' \<longrightarrow>
            snd (run net' github_token' (Suc depth') url' file_pattern') \<noteq> [])"
proof -
  have 1: "run net github_token depth repo_url file_pattern =
           (''Error: Invalid GitHub URL format. Expected: https://github.com/owner/repo'', [])"
    using assms unfolding url_match_None_iff [symmetric]
    by (simp add: run_invalid invalid_url_message_def)
  have 2: "begins_with_url_shape url' \<longrightarrow>
            snd (run net' github_token' (Suc depth') url' file_pattern') \<noteq> []"
  proof
    assume "begins_with_url_shape url'"
    then have "url_match (rstrip_slash url') \<noteq> None"
      using url_match_None_iff by blast
    then obtain owner repo where "url_match (rstrip_slash url') = Some (owner, repo)"
      by auto
    then show "snd (run net' github_token' (Suc depth') url' file_pattern') \<noteq> []"
      by (rule run_trace_valid)
  qed
  show ?thesis using 1 2 by blast
qed

theorem invalid_url_rejected_witness:
  "run down_net None (Suc 0) ''https://gitlab.com/o/r'' ''*.sol'' =
     (''Error: Invalid GitHub URL format. Expected: https://github.com/owner/repo'', [])"
proof -
  have "\<not> begins_with_url_shape ''https://gitlab.com/o/r''"
    by (simp add: begins_with_url_shape_def rstrip_slash_def)
  from invalid_url_rejected [OF this] show ?thesis by blast
qed

text \<open>
  Claim C5 as stated fails: \<^verbatim>\<open>https://github.com/o/r/x\<close> has not the shape
  \<^verbatim>\<open>https://github.com/<owner>/<repo>\<close>, and the fetcher goes on to the listing
  request for the repository \<open>o/r\<close>.
\<close>

theorem invalid_url_rejected_counterexample:
  "\<not> spec_url_shape ''https://github.com/o/r/x'' \<and>
   run down_net None (Suc 0) ''https://github.com/o/r/x'' ''*.sol'' =
     (''No Solidity (.sol) files found in the repository.'',
      [\<lparr>req_url = ''https://api.github.com/repos/o/r/contents/'', req_headers = []\<rparr>])"
proof -
  have 1: "\<not> spec_url_shape ''https://github.com/o/r/x''"
  proof
    assume "spec_url_shape ''https://github.com/o/r/x''"
    then obtain owner repo where
      e: "''o/r/x'' = owner @ ''/'' @ repo"
      and o: "CHR ''/'' \<notin> set owner" and r: "CHR ''/'' \<notin> set repo"
      unfolding spec_url_shape_def by (auto simp: rstrip_slash_def)
    have "dropWhile not_slash ''o/r/x'' = CHR ''/'' # repo"
      unfolding e using takeWhile_not_slash(2) [OF o, of repo] by simp
    then have "repo = ''r/x''" by (simp add: not_slash_def)
    with r show False by simp
  qed
  have m: "url_match (rstrip_slash ''https://github.com/o/r/x'') = Some (''o'', ''r'')"
    by (simp add: url_match_def rstrip_slash_def startswith_def not_slash_def)
  have f: "find_solidity_files down_net (Suc 0) ''o'' ''r'' [] (make_headers None) =
             ([], [\<lparr>req_url = ''https://api.github.com/repos/o/r/contents/'', req_headers = []\<rparr>])"
    by (simp add: down_net_def api_url_def list_headers_make)
  have 2: "run down_net None (Suc 0) ''https://github.com/o/r/x'' ''*.sol'' =
     (''No Solidity (.sol) files found in the repository.'',
      [\<lparr>req_url = ''https://api.github.com/repos/o/r/contents/'', req_headers = []\<rparr>])"
    unfolding run_no_files [OF m f] by (simp add: no_files_message_def)
  show ?thesis using 1 2 by blast
qed

subsection \<open>The order of the blocks\<close>

lemma main_section_kind:
  "is_main_block (fetch_section main_output net headers f) \<or>
   is_error_block (fetch_section main_output net headers f)"
  by (simp add: fetch_section_def is_main_block_def is_error_block_def main_output_def
      error_status_def error_exception_def startswith_def split: sum.split)

lemma supporting_section_kind:
  "is_supporting_block (fetch_section supporting_output net headers f) \<or>
   is_error_block (fetch_section supporting_output net headers f)"
  by (simp add: fetch_section_def is_supporting_block_def is_error_block_def
      supporting_output_def error_status_def error_exception_def startswith_def
      split: sum.split)

text \<open>
  Claim C4, as the code has it. The returned document is the patched summary block
  followed by the joined sections, in this order: one section for each main file in
  the order of discovery, a MAIN CONTRACT block or, when its fetch failed, an ERROR
  block; then one section for each supporting file that was handled, a SUPPORTING
  FILE block or an ERROR block; then the notice if the second loop stopped early.
  (The last replacement acts on the sections too; they are returned unchanged when
  the text of the unpatched summary does not occur in them.)
\<close>

theorem document_order:
  assumes "url_match (rstrip_slash repo_url) = Some (owner, repo)"
    and "find_solidity_files net depth owner repo [] (make_headers github_token) =
           (solidity_files, tr0)"
    and "solidity_files \<noteq> []"
    and "classify solidity_files ([], []) = (main_contracts, other_files)"
  shows
    "(let headers = make_headers github_token;
          summary = summary_block repo_url (length solidity_files)
                      (length main_contracts) (length other_files);
          k = handled net headers other_files
                (sum_list (map (fetch_chars main_output net headers) main_contracts));
          sections =
            map (fetch_section main_output net headers) main_contracts @
            map (fetch_section supporting_output net headers) (take k other_files) @
            (if k < length other_files then [limit_notice] else []);
          final_summary =
            final_summary_block summary (length other_files)
              (length (summary @ concat sections))
      in fst (render net headers repo_url solidity_files tr0) = summary \<and>
         fst (snd (render net headers repo_url solidity_files tr0)) = summary # sections \<and>
         fst (run net github_token depth repo_url file_pattern) =
           final_summary @ py_replace summary final_summary (concat sections) \<and>
         (\<not> sublist summary (concat sections) \<longrightarrow>
            fst (run net github_token depth repo_url file_pattern) =
              final_summary @ concat sections) \<and>
         (\<forall>f \<in> set main_contracts.
            is_main_block (fetch_section main_output net headers f) \<or>
            is_error_block (fetch_section main_output net headers f)) \<and>
         (\<forall>f \<in> set other_files.
            is_supporting_block (fetch_section supporting_output net headers f) \<or>
            is_error_block (fetch_section supporting_output net headers f)))"
proof -
  define headers where "headers = make_headers github_token"
  define summary where "summary = summary_block repo_url (length solidity_files)
                      (length main_contracts) (length other_files)"
  define k where "k = handled net headers other_files
                (sum_list (map (fetch_chars main_output net headers) main_contracts))"
  define sections where "sections =
            map (fetch_section main_output net headers) main_contracts @
            map (fetch_section supporting_output net headers) (take k other_files) @
            (if k < length other_files then [limit_notice] else [])"
  define final_summary where "final_summary =
            final_summary_block summary (length other_files)
              (length (summary @ concat sections))"
  obtain total_chars tr where
    r: "render net headers repo_url solidity_files tr0 =
          (summary, summary # sections, total_chars, tr)"
    unfolding render_eq [OF assms(4)] summary_def sections_def k_def by (simp add: Let_def)
  have o: "snd (classify solidity_files ([], [])) = other_files"
    using assms(4) by simp
  have doc: "fst (run net github_token depth repo_url file_pattern) =
           final_summary @ py_replace summary final_summary (concat sections)"
    using run_document [OF assms(1) assms(2) assms(3) r [unfolded headers_def]]
    unfolding final_summary_def o by simp
  have ne: "summary \<noteq> []"
    unfolding summary_def by (rule summary_block_not_Nil)
  have clean: "\<not> sublist summary (concat sections) \<longrightarrow>
            fst (run net github_token depth repo_url file_pattern) =
              final_summary @ concat sections"
    unfolding doc using ne by (simp add: py_replace_absent)
  have "fst (render net headers repo_url solidity_files tr0) = summary \<and>
         fst (snd (render net headers repo_url solidity_files tr0)) = summary # sections \<and>
         fst (run net github_token depth repo_url file_pattern) =
           final_summary @ py_replace summary final_summary (concat sections) \<and>
         (\<not> sublist summary (concat sections) \<longrightarrow>
            fst (run net github_token depth repo_url file_pattern) =
              final_summary @ concat sections) \<and>
         (\<forall>f \<in> set main_contracts.
            is_main_block (fetch_section main_output net headers f) \<or>
            is_error_block (fetch_section main_output net headers f)) \<and>
         (\<forall>f \<in> set other_files.
            is_supporting_block (fetch_section supporting_output net headers f) \<or>
            is_error_block (fetch_section supporting_output net headers f))"
    using r doc clean main_section_kind supporting_section_kind by simp
  then show ?thesis
    unfolding Let_def headers_def summary_def k_def sections_def final_summary_def .
qed

theorem document_order_witness:
  "fst (snd (render one_file_net (make_headers None) ''https://github.com/o/r''
       [(''src/a.sol'', ''https://api.github.com/repos/o/r/contents/src/a.sol'')]
       [\<lparr>req_url = ''https://api.github.com/repos/o/r/contents/'',
         req_headers = list_headers (make_headers None)\<rparr>])) =
     [summary_block ''https://github.com/o/r'' (Suc 0) (Suc 0) 0,
      fetch_section main_output one_file_net (make_headers None)
        (''src/a.sol'', ''https://api.github.com/repos/o/r/contents/src/a.sol'')]"
proof -
  have f: "[(''src/a.sol'', ''https://api.github.com/repos/o/r/contents/src/a.sol'')] \<noteq> []"
    by simp
  show ?thesis
    using document_order [OF url_match_o_r one_file_find f one_file_classify,
        where file_pattern = "''*.sol''" and github_token = None]
    by (simp add: Let_def)
qed

lemma two_main_classify:
  "classify [(''src/a.sol'', ''https://h/a.sol''), (''src/b.sol'', ''https://h/b.sol'')] ([], []) =
     ([(''src/a.sol'', ''https://h/a.sol''), (''src/b.sol'', ''https://h/b.sol'')], [])"
  by (simp add: is_main_contract_def startswith_def endswith_def)

lemma two_main_raw_url:
  "raw_url ''https://h/a.sol'' = ''https://h/a.sol''"
  "raw_url ''https://h/b.sol'' = ''https://h/b.sol''"
  by (simp_all add: raw_url_def py_replace.simps startswith_def)

lemma two_main_render:
  "render two_main_net headers ''https://github.com/o/r''
     [(''src/a.sol'', ''https://h/a.sol''), (''src/b.sol'', ''https://h/b.sol'')] tr0 =
     (''=== REPOSITORY ANALYSIS SUMMARY ===\<newline>Repository: https://github.com/o/r\<newline>Total files found: 2\<newline>Main contracts: 2\<newline>Supporting files: 0\<newline>\<newline>'',
      [''=== REPOSITORY ANALYSIS SUMMARY ===\<newline>Repository: https://github.com/o/r\<newline>Total files found: 2\<newline>Main contracts: 2\<newline>Supporting files: 0\<newline>\<newline>'',
       ''\<newline>=== ERROR: src/a.sol ===\<newline>Could not fetch file (Status: 404)\<newline>'',
       ''\<newline>=== MAIN CONTRACT: src/b.sol ===\<newline>Contract size: 1 characters\<newline>Complete source code:\<newline>x\<newline>''],
      86,
      tr0 @ [file_request headers ''https://h/a.sol'', file_request headers ''https://h/b.sol''])"
proof -
  have n: "str_nat 404 = ''404''"
    by (simp add: str_nat.simps digit_char_def)
  have a: "fetch_section main_output two_main_net headers (''src/a.sol'', ''https://h/a.sol'') =
           ''\<newline>=== ERROR: src/a.sol ===\<newline>Could not fetch file (Status: 404)\<newline>''"
    by (simp add: fetch_section_def file_request_def two_main_raw_url two_main_net_def
        error_status_def str_int_def n)
  have b: "fetch_section main_output two_main_net headers (''src/b.sol'', ''https://h/b.sol'') =
           ''\<newline>=== MAIN CONTRACT: src/b.sol ===\<newline>Contract size: 1 characters\<newline>Complete source code:\<newline>x\<newline>''"
    by (simp add: fetch_section_def file_request_def two_main_raw_url two_main_net_def
        main_output_def str_nat_digit digit_char_def)
  have ca: "fetch_chars main_output two_main_net headers (''src/a.sol'', ''https://h/a.sol'') = 0"
    by (simp add: fetch_chars_def file_request_def two_main_raw_url two_main_net_def)
  have cb: "fetch_chars main_output two_main_net headers (''src/b.sol'', ''https://h/b.sol'') = 86"
    by (simp add: fetch_chars_def file_request_def two_main_raw_url two_main_net_def
        main_output_def str_nat_digit digit_char_def)
  show ?thesis
    unfolding render_eq [OF two_main_classify]
    by (simp add: a b ca cb Let_def summary_block_def str_nat_digit digit_char_def)
qed

text \<open>
  Claim C4 as stated fails: when the content of the first of two main files is
  answered with status 404, the blocks are the summary, an ERROR block and then a
  MAIN CONTRACT block, which is not the stated structure.
\<close>

theorem document_order_counterexample:
  "fst (snd (render two_main_net (make_headers None) ''https://github.com/o/r''
       (fst (find_solidity_files two_main_net (Suc 0) ''o'' ''r'' [] (make_headers None)))
       (snd (find_solidity_files two_main_net (Suc 0) ''o'' ''r'' [] (make_headers None))))) =
     [''=== REPOSITORY ANALYSIS SUMMARY ===\<newline>Repository: https://github.com/o/r\<newline>Total files found: 2\<newline>Main contracts: 2\<newline>Supporting files: 0\<newline>\<newline>'',
      ''\<newline>=== ERROR: src/a.sol ===\<newline>Could not fetch file (Status: 404)\<newline>'',
      ''\<newline>=== MAIN CONTRACT: src/b.sol ===\<newline>Contract size: 1 characters\<newline>Complete source code:\<newline>x\<newline>''] \<and>
   \<not> spec_structure
     [''=== REPOSITORY ANALYSIS SUMMARY ===\<newline>Repository: https://github.com/o/r\<newline>Total files found: 2\<newline>Main contracts: 2\<newline>Supporting files: 0\<newline>\<newline>'',
      ''\<newline>=== ERROR: src/a.sol ===\<newline>Could not fetch file (Status: 404)\<newline>'',
      ''\<newline>=== MAIN CONTRACT: src/b.sol ===\<newline>Contract size: 1 characters\<newline>Complete source code:\<newline>x\<newline>''] \<and>
   fst (run two_main_net None (Suc 0) ''https://github.com/o/r'' ''*.sol'') =
     ''=== REPOSITORY ANALYSIS SUMMARY ===\<newline>Repository: https://github.com/o/r\<newline>Total files found: 2\<newline>Main contracts: 2\<newline>Supporting files: 0\<newline>Total output size: 278 characters\<newline> 0\<newline>\<newline>\<newline>=== ERROR: src/a.sol ===\<newline>Could not fetch file (Status: 404)\<newline>\<newline>=== MAIN CONTRACT: src/b.sol ===\<newline>Contract size: 1 characters\<newline>Complete source code:\<newline>x\<newline>''"
proof -
  have fd: "find_solidity_files two_main_net (Suc 0) ''o'' ''r'' [] (make_headers None) =
     ([(''src/a.sol'', ''https://h/a.sol''), (''src/b.sol'', ''https://h/b.sol'')],
      [\<lparr>req_url = ''https://api.github.com/repos/o/r/contents/'',
        req_headers = list_headers (make_headers None)\<rparr>])"
    by (simp add: two_main_net_def api_url_def endswith_def)
  have 1: "fst (snd (render two_main_net (make_headers None) ''https://github.com/o/r''
       (fst (find_solidity_files two_main_net (Suc 0) ''o'' ''r'' [] (make_headers None)))
       (snd (find_solidity_files two_main_net (Suc 0) ''o'' ''r'' [] (make_headers None))))) =
     [''=== REPOSITORY ANALYSIS SUMMARY ===\<newline>Repository: https://github.com/o/r\<newline>Total files found: 2\<newline>Main contracts: 2\<newline>Supporting files: 0\<newline>\<newline>'',
      ''\<newline>=== ERROR: src/a.sol ===\<newline>Could not fetch file (Status: 404)\<newline>'',
      ''\<newline>=== MAIN CONTRACT: src/b.sol ===\<newline>Contract size: 1 characters\<newline>Complete source code:\<newline>x\<newline>'']"
    unfolding fd fst_conv snd_conv two_main_render by simp
  have 2: "\<not> spec_structure
     [''=== REPOSITORY ANALYSIS SUMMARY ===\<newline>Repository: https://github.com/o/r\<newline>Total files found: 2\<newline>Main contracts: 2\<newline>Supporting files: 0\<newline>\<newline>'',
      ''\<newline>=== ERROR: src/a.sol ===\<newline>Could not fetch file (Status: 404)\<newline>'',
      ''\<newline>=== MAIN CONTRACT: src/b.sol ===\<newline>Contract size: 1 characters\<newline>Complete source code:\<newline>x\<newline>'']"
    by (simp add: spec_structure_def is_summary_block_def is_main_block_def
        is_supporting_block_def is_error_block_def startswith_def limit_notice_def)
  have f: "[(''src/a.sol'', ''https://h/a.sol''), (''src/b.sol'', ''https://h/b.sol'')] \<noteq> []"
    by simp
  have o: "length (snd (classify
             [(''src/a.sol'', ''https://h/a.sol''), (''src/b.sol'', ''https://h/b.sol'')]
             ([], []))) = 0"
    unfolding two_main_classify by simp
  have l: "length (concat
     [''=== REPOSITORY ANALYSIS SUMMARY ===\<newline>Repository: https://github.com/o/r\<newline>Total files found: 2\<newline>Main contracts: 2\<newline>Supporting files: 0\<newline>\<newline>'',
      ''\<newline>=== ERROR: src/a.sol ===\<newline>Could not fetch file (Status: 404)\<newline>'',
      ''\<newline>=== MAIN CONTRACT: src/b.sol ===\<newline>Contract size: 1 characters\<newline>Complete source code:\<newline>x\<newline>'']) = 278"
    by simp
  have n: "str_nat 278 = ''278''"
    by (simp add: str_nat.simps digit_char_def)
  have 3: "fst (run two_main_net None (Suc 0) ''https://github.com/o/r'' ''*.sol'') =
     ''=== REPOSITORY ANALYSIS SUMMARY ===\<newline>Repository: https://github.com/o/r\<newline>Total files found: 2\<newline>Main contracts: 2\<newline>Supporting files: 0\<newline>Total output size: 278 characters\<newline> 0\<newline>\<newline>\<newline>=== ERROR: src/a.sol ===\<newline>Could not fetch file (Status: 404)\<newline>\<newline>=== MAIN CONTRACT: src/b.sol ===\<newline>Contract size: 1 characters\<newline>Complete source code:\<newline>x\<newline>''"
    unfolding run_files [OF url_match_o_r fd f two_main_render] fst_conv
      o l final_summary_block_def n
    by (simp add: str_nat_digit digit_char_def py_replace.simps startswith_def)
  show ?thesis using 1 2 3 by blast
qed

subsection \<open>Sections in the results and in the returned document\<close>

text \<open>
  The second loop reaches the file at position \<open>i\<close> when the counter is not above
  100000 at the top of the iterations \<open>0\<close> to \<open>i\<close>.
\<close>

lemma below_handled:
  assumes "i < length fs"
    and "\<forall>j\<le>i. total_chars +
           sum_list (map (fetch_chars supporting_output net headers) (take j fs)) \<le> 100000"
  shows "i < handled net headers fs total_chars"
  using assms
proof (induction fs arbitrary: i total_chars)
  case Nil
  then show ?case by simp
next
  case (Cons f fs)
  from Cons.prems(2) have le: "total_chars \<le> 100000"
    by (auto dest!: spec [where x = 0])
  show ?case
  proof (cases i)
    case 0
    with le show ?thesis by simp
  next
    case (Suc i')
    have a: "i' < length fs" using Cons.prems(1) Suc by simp
    have b: "\<forall>j\<le>i'. total_chars + fetch_chars supporting_output net headers f +
               sum_list (map (fetch_chars supporting_output net headers) (take j fs)) \<le> 100000"
    proof (intro allI impI)
      fix j assume "j \<le> i'"
      then have "Suc j \<le> i" using Suc by simp
      with Cons.prems(2) show "total_chars + fetch_chars supporting_output net headers f +
               sum_list (map (fetch_chars supporting_output net headers) (take j fs)) \<le> 100000"
        by (auto simp: add.assoc dest!: spec [where x = "Suc j"])
    qed
    from Cons.IH [OF a b] le Suc show ?thesis by simp
  qed
qed

lemma process_main_mem:
  "f \<in> set fs \<Longrightarrow>
   fetch_section main_output net headers f \<in>
     set (fst (process_main net headers fs (results, total_chars, tr)))"
  by (simp add: process_main_eq)

lemma process_other_mem:
  assumes "i < length fs"
    and "\<forall>j\<le>i. total_chars +
           sum_list (map (fetch_chars supporting_output net headers) (take j fs)) \<le> 100000"
  shows "fetch_section supporting_output net headers (fs ! i) \<in>
           set (fst (process_other net headers fs (results, total_chars, tr)))"
proof -
  have "i < handled net headers fs total_chars"
    using assms by (rule below_handled)
  then have "fs ! i \<in> set (take (handled net headers fs total_chars) fs)"
    using assms(1) by (metis in_set_conv_nth length_take min_less_iff_conj nth_take)
  then show ?thesis
    by (simp add: process_other_eq Let_def)
qed

lemma render_main_mem:
  assumes "classify solidity_files ([], []) = (main_contracts, other_files)"
    and "render net headers repo_url solidity_files tr0 = (summary, blocks, total_chars, tr)"
    and "f \<in> set main_contracts"
  shows "fetch_section main_output net headers f \<in> set (tl blocks)"
  using assms(2,3) unfolding render_eq [OF assms(1)] by (auto simp: Let_def)

lemma render_other_mem:
  assumes "classify solidity_files ([], []) = (main_contracts, other_files)"
    and "render net headers repo_url solidity_files tr0 = (summary, blocks, total_chars, tr)"
    and "i < length other_files"
    and "\<forall>j\<le>i. sum_list (map (fetch_chars main_output net headers) main_contracts) +
           sum_list (map (fetch_chars supporting_output net headers) (take j other_files))
             \<le> 100000"
  shows "fetch_section supporting_output net headers (other_files ! i) \<in> set (tl blocks)"
proof -
  let ?k = "handled net headers other_files
              (sum_list (map (fetch_chars main_output net headers) main_contracts))"
  have "i < ?k"
    using assms(3,4) by (rule below_handled)
  then have "other_files ! i \<in> set (take ?k other_files)"
    using assms(3) by (metis in_set_conv_nth length_take min_less_iff_conj nth_take)
  then show ?thesis
    using assms(2) unfolding render_eq [OF assms(1)] by (auto simp: Let_def)
qed

lemma mem_sublist_concat: "x \<in> set xs \<Longrightarrow> sublist x (concat xs)"
proof -
  assume "x \<in> set xs"
  then obtain a b where "xs = a @ x # b" by (meson split_list)
  then have "concat xs = concat a @ x @ concat b" by simp
  then show ?thesis by (metis sublist_appendI)
qed

lemma run_shows_section:
  assumes "url_match (rstrip_slash repo_url) = Some (owner, repo)"
    and "find_solidity_files net depth owner repo [] (make_headers github_token) =
           (solidity_files, tr0)"
    and "render net (make_headers github_token) repo_url solidity_files tr0 =
           (summary, blocks, total_chars, tr)"
    and "\<not> sublist summary (concat (tl blocks))"
    and "s \<in> set (tl blocks)"
  shows "sublist s (fst (run net github_token depth repo_url file_pattern))"
proof -
  obtain sections where b: "blocks = summary # sections"
    and sm: "summary = summary_block repo_url (length solidity_files)
             (length (fst (classify solidity_files ([], []))))
             (length (snd (classify solidity_files ([], []))))"
    using render_results [OF assms(3)] by blast
  have ne: "solidity_files \<noteq> []"
  proof
    assume e: "solidity_files = []"
    have "render net (make_headers github_token) repo_url [] tr0 =
            (summary_block repo_url 0 0 0, [summary_block repo_url 0 0 0], 0, tr0)"
      by (simp add: render_def Let_def)
    with assms(3) e have "tl blocks = []" by auto
    with assms(5) show False by simp
  qed
  have s0: "summary \<noteq> []"
    unfolding sm by (rule summary_block_not_Nil)
  let ?final = "final_summary_block summary (length (snd (classify solidity_files ([], []))))
                  (length (summary @ concat sections))"
  have "fst (run net github_token depth repo_url file_pattern) =
          ?final @ py_replace summary ?final (concat sections)"
    using run_document [OF assms(1) assms(2) ne assms(3) [unfolded b]] .
  also have "py_replace summary ?final (concat sections) = concat sections"
    using s0 assms(4) unfolding b by (simp add: py_replace_absent)
  finally have doc: "fst (run net github_token depth repo_url file_pattern) =
                       ?final @ concat sections" .
  have "sublist s (concat sections)"
    using assms(5) unfolding b by (simp add: mem_sublist_concat)
  then show ?thesis
    unfolding doc by (metis sublist_append_leftI sublist_order.order.trans)
qed

lemma run_forms:
  "fst (run net github_token depth repo_url file_pattern) = invalid_url_message \<or>
   fst (run net github_token depth repo_url file_pattern) = no_files_message \<or>
   (\<exists>owner repo solidity_files tr0 summary blocks total_chars tr.
      url_match (rstrip_slash repo_url) = Some (owner, repo) \<and>
      find_solidity_files net depth owner repo [] (make_headers github_token) =
        (solidity_files, tr0) \<and>
      solidity_files \<noteq> [] \<and>
      render net (make_headers github_token) repo_url solidity_files tr0 =
        (summary, blocks, total_chars, tr) \<and>
      fst (run net github_token depth repo_url file_pattern) =
        py_replace summary
          (final_summary_block summary (length (snd (classify solidity_files ([], []))))
             (length (concat blocks)))
          (concat blocks))"
proof (cases "url_match (rstrip_slash repo_url)")
  case None
  then show ?thesis by (simp add: run_invalid)
next
  case (Some m)
  obtain owner repo where m: "m = (owner, repo)" by (cases m)
  obtain fs tr0 where
    f: "find_solidity_files net depth owner repo [] (make_headers github_token) = (fs, tr0)"
    by (cases "find_solidity_files net depth owner repo [] (make_headers github_token)")
  show ?thesis
  proof (cases "fs = []")
    case True
    with Some m f show ?thesis by (simp add: run_no_files)
  next
    case False
    obtain summary blocks total_chars tr where
      r: "render net (make_headers github_token) repo_url fs tr0 =
            (summary, blocks, total_chars, tr)"
      by (cases "render net (make_headers github_token) repo_url fs tr0") auto
    have "fst (run net github_token depth repo_url file_pattern) =
        py_replace summary
          (final_summary_block summary (length (snd (classify fs ([], []))))
             (length (concat blocks)))
          (concat blocks)"
      using run_files [OF Some [unfolded m] f False r] by simp
    with Some m f False r show ?thesis by blast
  qed
qed

subsection \<open>A run on the repository with a failing supporting file\<close>

lemma length_long_text: "length long_text = 2001"
  unfolding long_text_def by (rule length_replicate)

lemma set_long_text: "set long_text = {CHR ''a''}"
  unfolding long_text_def by (rule set_replicate) simp

lemma set_take_long_text: "set (take 2000 long_text) \<subseteq> {CHR ''a''}"
  using set_take_subset [of 2000 long_text] unfolding set_long_text .

lemma str_nat_2001: "str_nat 2001 = ''2001''"
  by (simp add: str_nat.simps digit_char_def)

lemma str_nat_404: "str_nat 404 = ''404''"
  by (simp add: str_nat.simps digit_char_def)

lemma not_sublist_by_char: "c \<in> set xs \<Longrightarrow> c \<notin> set ys \<Longrightarrow> \<not> sublist xs ys"
  using set_mono_sublist by fastforce

lemma mixed_find:
  "find_solidity_files mixed_net (Suc 0) ''o'' ''r'' [] headers =
     ([(''src/a.sol'', ''https://h/a.sol''), (''test/a.t.sol'', ''https://h/a.t.sol''),
       (''test/b.t.sol'', ''https://h/b.t.sol'')],
      [\<lparr>req_url = ''https://api.github.com/repos/o/r/contents/'',
        req_headers = list_headers headers\<rparr>])"
  by (simp add: mixed_net_def api_url_def endswith_def)

lemma mixed_classify:
  "classify [(''src/a.sol'', ''https://h/a.sol''), (''test/a.t.sol'', ''https://h/a.t.sol''),
             (''test/b.t.sol'', ''https://h/b.t.sol'')] ([], []) =
     ([(''src/a.sol'', ''https://h/a.sol'')],
      [(''test/a.t.sol'', ''https://h/a.t.sol''), (''test/b.t.sol'', ''https://h/b.t.sol'')])"
  by (simp add: is_main_contract_def startswith_def endswith_def)

lemma mixed_raw_url:
  "raw_url ''https://h/a.sol'' = ''https://h/a.sol''"
  "raw_url ''https://h/a.t.sol'' = ''https://h/a.t.sol''"
  "raw_url ''https://h/b.t.sol'' = ''https://h/b.t.sol''"
  by (simp_all add: raw_url_def py_replace.simps startswith_def)

lemma mixed_responses:
  "mixed_net (file_request headers ''https://h/a.sol'') =
     Inr \<lparr>status_code = 200, body_text = long_text, body_json = Inl (Exn ''no JSON'')\<rparr>"
  "mixed_net (file_request headers ''https://h/a.t.sol'') =
     Inr \<lparr>status_code = 404, body_text = ''Not Found'', body_json = Inl (Exn ''no JSON'')\<rparr>"
  "mixed_net (file_request headers ''https://h/b.t.sol'') =
     Inr \<lparr>status_code = 200, body_text = long_text, body_json = Inl (Exn ''no JSON'')\<rparr>"
  by (simp_all add: mixed_net_def file_request_def mixed_raw_url)

lemma mixed_sections:
  "fetch_section main_output mixed_net headers (''src/a.sol'', ''https://h/a.sol'') =
     ''\<newline>=== MAIN CONTRACT: src/a.sol ===\<newline>Contract size: 2001 characters\<newline>Complete source code:\<newline>'' @
     long_text @ ''\<newline>''"
  "fetch_section supporting_output mixed_net headers (''test/a.t.sol'', ''https://h/a.t.sol'') =
     ''\<newline>=== ERROR: test/a.t.sol ===\<newline>Could not fetch file (Status: 404)\<newline>''"
  "fetch_section supporting_output mixed_net headers (''test/b.t.sol'', ''https://h/b.t.sol'') =
     ''\<newline>=== SUPPORTING FILE: test/b.t.sol ===\<newline>File size: 2001 characters\<newline>First 2000 characters:\<newline>'' @
     take 2000 long_text @ ''...\<newline>[File truncated for brevity]\<newline>''"
  by (simp_all add: fetch_section_def mixed_responses main_output_def supporting_output_def
      error_status_def str_int_def length_long_text str_nat_2001 str_nat_404)

lemma mixed_chars:
  "fetch_chars main_output mixed_net headers (''src/a.sol'', ''https://h/a.sol'') = 2089"
  "fetch_chars supporting_output mixed_net headers (''test/a.t.sol'', ''https://h/a.t.sol'') = 0"
  "fetch_chars supporting_output mixed_net headers (''test/b.t.sol'', ''https://h/b.t.sol'') = 2122"
  by (simp_all add: fetch_chars_def mixed_responses main_output_def supporting_output_def
      length_long_text str_nat_2001)

lemma mixed_render:
  "render mixed_net headers ''https://github.com/o/r''
     [(''src/a.sol'', ''https://h/a.sol''), (''test/a.t.sol'', ''https://h/a.t.sol''),
      (''test/b.t.sol'', ''https://h/b.t.sol'')] tr0 =
     (''=== REPOSITORY ANALYSIS SUMMARY ===\<newline>Repository: https://github.com/o/r\<newline>Total files found: 3\<newline>Main contracts: 1\<newline>Supporting files: 2\<newline>\<newline>'',
      [''=== REPOSITORY ANALYSIS SUMMARY ===\<newline>Repository: https://github.com/o/r\<newline>Total files found: 3\<newline>Main contracts: 1\<newline>Supporting files: 2\<newline>\<newline>'',
       ''\<newline>=== MAIN CONTRACT: src/a.sol ===\<newline>Contract size: 2001 characters\<newline>Complete source code:\<newline>'' @
         long_text @ ''\<newline>'',
       ''\<newline>=== ERROR: test/a.t.sol ===\<newline>Could not fetch file (Status: 404)\<newline>'',
       ''\<newline>=== SUPPORTING FILE: test/b.t.sol ===\<newline>File size: 2001 characters\<newline>First 2000 characters:\<newline>'' @
         take 2000 long_text @ ''...\<newline>[File truncated for brevity]\<newline>''],
      4211,
      tr0 @ [file_request headers ''https://h/a.sol'', file_request headers ''https://h/a.t.sol'',
             file_request headers ''https://h/b.t.sol''])"
  unfolding render_eq [OF mixed_classify]
  by (simp add: mixed_sections mixed_chars Let_def summary_block_def str_nat_digit digit_char_def)

lemma mixed_clean:
  "\<not> sublist
     ''=== REPOSITORY ANALYSIS SUMMARY ===\<newline>Repository: https://github.com/o/r\<newline>Total files found: 3\<newline>Main contracts: 1\<newline>Supporting files: 2\<newline>\<newline>''
     (concat (tl
       [''=== REPOSITORY ANALYSIS SUMMARY ===\<newline>Repository: https://github.com/o/r\<newline>Total files found: 3\<newline>Main contracts: 1\<newline>Supporting files: 2\<newline>\<newline>'',
        ''\<newline>=== MAIN CONTRACT: src/a.sol ===\<newline>Contract size: 2001 characters\<newline>Complete source code:\<newline>'' @
          long_text @ ''\<newline>'',
        ''\<newline>=== ERROR: test/a.t.sol ===\<newline>Could not fetch file (Status: 404)\<newline>'',
        ''\<newline>=== SUPPORTING FILE: test/b.t.sol ===\<newline>File size: 2001 characters\<newline>First 2000 characters:\<newline>'' @
          take 2000 long_text @ ''...\<newline>[File truncated for brevity]\<newline>'']))"
proof (rule not_sublist_by_char [of "CHR ''Y''"])
  show "CHR ''Y'' \<in> set ''=== REPOSITORY ANALYSIS SUMMARY ===\<newline>Repository: https://github.com/o/r\<newline>Total files found: 3\<newline>Main contracts: 1\<newline>Supporting files: 2\<newline>\<newline>''"
    by simp
  show "CHR ''Y'' \<notin> set (concat (tl
       [''=== REPOSITORY ANALYSIS SUMMARY ===\<newline>Repository: https://github.com/o/r\<newline>Total files found: 3\<newline>Main contracts: 1\<newline>Supporting files: 2\<newline>\<newline>'',
        ''\<newline>=== MAIN CONTRACT: src/a.sol ===\<newline>Contract size: 2001 characters\<newline>Complete source code:\<newline>'' @
          long_text @ ''\<newline>'',
        ''\<newline>=== ERROR: test/a.t.sol ===\<newline>Could not fetch file (Status: 404)\<newline>'',
        ''\<newline>=== SUPPORTING FILE: test/b.t.sol ===\<newline>File size: 2001 characters\<newline>First 2000 characters:\<newline>'' @
          take 2000 long_text @ ''...\<newline>[File truncated for brevity]\<newline>'']))"
    using set_take_long_text by (auto simp: set_long_text)
qed

text \<open>
  Claim C3. When the fetch of a file succeeds: as a main file its section carries the
  whole content, whatever its length, and that section is among the results of the
  first loop; as a supporting file with a content of more than 2000 characters its
  section carries the first 2000 characters followed by the marker, the header line
  still reports the length of the whole content, and that section is among the
  results of the second loop whenever the loop reaches the file. In both cases the
  section stands in the returned document (the last replacement leaves the sections
  as they are when the text of the unpatched summary does not occur in them).
\<close>

theorem content_rendering:
  assumes "net (file_request headers u) = Inr r" and "status_code r = 200"
  shows "fetch_section main_output net headers (p, u) =
           ''\<newline>=== MAIN CONTRACT: '' @ p @ '' ===\<newline>'' @
           ''Contract size: '' @ str_nat (length (body_text r)) @ '' characters\<newline>'' @
           ''Complete source code:\<newline>'' @ body_text r @ ''\<newline>'' \<and>
         ((p, u) \<in> set main_contracts \<longrightarrow>
            fetch_section main_output net headers (p, u) \<in>
              set (fst (process_main net headers main_contracts (results, total_chars, tr)))) \<and>
         (length (body_text r) > 2000 \<longrightarrow>
            fetch_section supporting_output net headers (p, u) =
              ''\<newline>=== SUPPORTING FILE: '' @ p @ '' ===\<newline>'' @
              ''File size: '' @ str_nat (length (body_text r)) @ '' characters\<newline>'' @
              ''First 2000 characters:\<newline>'' @ take 2000 (body_text r) @
              ''...\<newline>[File truncated for brevity]\<newline>'' \<and>
            length (take 2000 (body_text r)) = 2000) \<and>
         (i < length other_files \<and> other_files ! i = (p, u) \<and>
          (\<forall>j\<le>i. total_chars +
             sum_list (map (fetch_chars supporting_output net headers) (take j other_files))
               \<le> 100000) \<longrightarrow>
            fetch_section supporting_output net headers (p, u) \<in>
              set (fst (process_other net headers other_files (results, total_chars, tr)))) \<and>
         (headers = make_headers github_token \<and>
          url_match (rstrip_slash repo_url) = Some (owner, repo) \<and>
          find_solidity_files net depth owner repo [] headers = (solidity_files, tr0) \<and>
          classify solidity_files ([], []) = (mains, others) \<and>
          render net headers repo_url solidity_files tr0 = (summary, blocks, t, tr') \<and>
          \<not> sublist summary (concat (tl blocks)) \<longrightarrow>
            ((p, u) \<in> set mains \<longrightarrow>
               sublist (fetch_section main_output net headers (p, u))
                 (fst (run net github_token depth repo_url file_pattern))) \<and>
            (k < length others \<and> others ! k = (p, u) \<and>
             (\<forall>j\<le>k. sum_list (map (fetch_chars main_output net headers) mains) +
                sum_list (map (fetch_chars supporting_output net headers) (take j others))
                  \<le> 100000) \<longrightarrow>
               sublist (fetch_section supporting_output net headers (p, u))
                 (fst (run net github_token depth repo_url file_pattern))))"
proof -
  have 1: "fetch_section main_output net headers (p, u) =
           ''\<newline>=== MAIN CONTRACT: '' @ p @ '' ===\<newline>'' @
           ''Contract size: '' @ str_nat (length (body_text r)) @ '' characters\<newline>'' @
           ''Complete source code:\<newline>'' @ body_text r @ ''\<newline>''"
    using assms by (simp add: fetch_section_def main_output_def)
  have 2: "(p, u) \<in> set main_contracts \<longrightarrow>
            fetch_section main_output net headers (p, u) \<in>
              set (fst (process_main net headers main_contracts (results, total_chars, tr)))"
    using process_main_mem by blast
  have 3: "length (body_text r) > 2000 \<longrightarrow>
            fetch_section supporting_output net headers (p, u) =
              ''\<newline>=== SUPPORTING FILE: '' @ p @ '' ===\<newline>'' @
              ''File size: '' @ str_nat (length (body_text r)) @ '' characters\<newline>'' @
              ''First 2000 characters:\<newline>'' @ take 2000 (body_text r) @
              ''...\<newline>[File truncated for brevity]\<newline>'' \<and>
            length (take 2000 (body_text r)) = 2000"
    using assms by (simp add: fetch_section_def supporting_output_def)
  have 4: "i < length other_files \<and> other_files ! i = (p, u) \<and>
          (\<forall>j\<le>i. total_chars +
             sum_list (map (fetch_chars supporting_output net headers) (take j other_files))
               \<le> 100000) \<longrightarrow>
            fetch_section supporting_output net headers (p, u) \<in>
              set (fst (process_other net headers other_files (results, total_chars, tr)))"
    using process_other_mem [of i other_files total_chars net headers results tr] by auto
  have 5: "headers = make_headers github_token \<and>
          url_match (rstrip_slash repo_url) = Some (owner, repo) \<and>
          find_solidity_files net depth owner repo [] headers = (solidity_files, tr0) \<and>
          classify solidity_files ([], []) = (mains, others) \<and>
          render net headers repo_url solidity_files tr0 = (summary, blocks, t, tr') \<and>
          \<not> sublist summary (concat (tl blocks)) \<longrightarrow>
            ((p, u) \<in> set mains \<longrightarrow>
               sublist (fetch_section main_output net headers (p, u))
                 (fst (run net github_token depth repo_url file_pattern))) \<and>
            (k < length others \<and> others ! k = (p, u) \<and>
             (\<forall>j\<le>k. sum_list (map (fetch_chars main_output net headers) mains) +
                sum_list (map (fetch_chars supporting_output net headers) (take j others))
                  \<le> 100000) \<longrightarrow>
               sublist (fetch_section supporting_output net headers (p, u))
                 (fst (run net github_token depth repo_url file_pattern)))"
  proof (intro impI, elim conjE)
    assume h: "headers = make_headers github_token"
      and m: "url_match (rstrip_slash repo_url) = Some (owner, repo)"
      and f: "find_solidity_files net depth owner repo [] headers = (solidity_files, tr0)"
      and c: "classify solidity_files ([], []) = (mains, others)"
      and r: "render net headers repo_url solidity_files tr0 = (summary, blocks, t, tr')"
      and cl: "\<not> sublist summary (concat (tl blocks))"
    have a: "(p, u) \<in> set mains \<longrightarrow>
               sublist (fetch_section main_output net headers (p, u))
                 (fst (run net github_token depth repo_url file_pattern))"
    proof
      assume "(p, u) \<in> set mains"
      then have "fetch_section main_output net headers (p, u) \<in> set (tl blocks)"
        by (rule render_main_mem [OF c r])
      then show "sublist (fetch_section main_output net headers (p, u))
                 (fst (run net github_token depth repo_url file_pattern))"
        by (rule run_shows_section [OF m f [unfolded h] r [unfolded h] cl])
    qed
    have b: "k < length others \<and> others ! k = (p, u) \<and>
             (\<forall>j\<le>k. sum_list (map (fetch_chars main_output net headers) mains) +
                sum_list (map (fetch_chars supporting_output net headers) (take j others))
                  \<le> 100000) \<longrightarrow>
               sublist (fetch_section supporting_output net headers (p, u))
                 (fst (run net github_token depth repo_url file_pattern))"
    proof (intro impI, elim conjE)
      assume k: "k < length others" and e: "others ! k = (p, u)"
        and b: "\<forall>j\<le>k. sum_list (map (fetch_chars main_output net headers) mains) +
                sum_list (map (fetch_chars supporting_output net headers) (take j others))
                  \<le> 100000"
      have "fetch_section supporting_output net headers (others ! k) \<in> set (tl blocks)"
        by (rule render_other_mem [OF c r k b])
      then have "fetch_section supporting_output net headers (p, u) \<in> set (tl blocks)"
        unfolding e .
      then show "sublist (fetch_section supporting_output net headers (p, u))
                 (fst (run net github_token depth repo_url file_pattern))"
        by (rule run_shows_section [OF m f [unfolded h] r [unfolded h] cl])
    qed
    from a b show "((p, u) \<in> set mains \<longrightarrow>
               sublist (fetch_section main_output net headers (p, u))
                 (fst (run net github_token depth repo_url file_pattern))) \<and>
            (k < length others \<and> others ! k = (p, u) \<and>
             (\<forall>j\<le>k. sum_list (map (fetch_chars main_output net headers) mains) +
                sum_list (map (fetch_chars supporting_output net headers) (take j others))
                  \<le> 100000) \<longrightarrow>
               sublist (fetch_section supporting_output net headers (p, u))
                 (fst (run net github_token depth repo_url file_pattern)))"
      by (rule conjI)
  qed
  show ?thesis using 1 2 3 4 5 by blast
qed

theorem content_rendering_witness:
  "sublist
     (''\<newline>=== MAIN CONTRACT: src/a.sol ===\<newline>Contract size: 2001 characters\<newline>Complete source code:\<newline>'' @
      long_text @ ''\<newline>'')
     (fst (run mixed_net None (Suc 0) ''https://github.com/o/r'' ''*.sol'')) \<and>
   sublist
     (''\<newline>=== SUPPORTING FILE: test/b.t.sol ===\<newline>File size: 2001 characters\<newline>First 2000 characters:\<newline>'' @
      take 2000 long_text @ ''...\<newline>[File truncated for brevity]\<newline>'')
     (fst (run mixed_net None (Suc 0) ''https://github.com/o/r'' ''*.sol'')) \<and>
   (''\<newline>=== SUPPORTING FILE: test/b.t.sol ===\<newline>File size: 2001 characters\<newline>First 2000 characters:\<newline>'' @
    take 2000 long_text @ ''...\<newline>[File truncated for brevity]\<newline>'')
     \<in> set (fst (process_other mixed_net (make_headers None)
                  [(''test/a.t.sol'', ''https://h/a.t.sol''),
                   (''test/b.t.sol'', ''https://h/b.t.sol'')] ([''s''], 0, [])))"
proof -
  let ?hs = "make_headers None"
  let ?ok = "\<lparr>status_code = 200, body_text = long_text, body_json = Inl (Exn ''no JSON'')\<rparr>"
  let ?others = "[(''test/a.t.sol'', ''https://h/a.t.sol''),
                  (''test/b.t.sol'', ''https://h/b.t.sol'')]"
  have st: "status_code ?ok = 200" by simp
  have fd: "find_solidity_files mixed_net (Suc 0) ''o'' ''r'' [] ?hs =
     ([(''src/a.sol'', ''https://h/a.sol''), (''test/a.t.sol'', ''https://h/a.t.sol''),
       (''test/b.t.sol'', ''https://h/b.t.sol'')],
      [\<lparr>req_url = ''https://api.github.com/repos/o/r/contents/'',
        req_headers = list_headers ?hs\<rparr>])"
    by (rule mixed_find)
  note run_hyps = refl [of ?hs] url_match_o_r fd mixed_classify
    mixed_render [of ?hs "[\<lparr>req_url = ''https://api.github.com/repos/o/r/contents/'',
        req_headers = list_headers ?hs\<rparr>]"] mixed_clean
  have m: "(''src/a.sol'', ''https://h/a.sol'') \<in> set [(''src/a.sol'', ''https://h/a.sol'')]"
    by simp
  have "sublist (fetch_section main_output mixed_net ?hs (''src/a.sol'', ''https://h/a.sol''))
          (fst (run mixed_net None (Suc 0) ''https://github.com/o/r'' ''*.sol''))"
    using content_rendering [where net = mixed_net and headers = ?hs
        and u = "''https://h/a.sol''" and r = ?ok and p = "''src/a.sol''"
        and github_token = None and file_pattern = "''*.sol''",
        OF mixed_responses(1) st] run_hyps m
    by blast
  then have 1: "sublist
     (''\<newline>=== MAIN CONTRACT: src/a.sol ===\<newline>Contract size: 2001 characters\<newline>Complete source code:\<newline>'' @
      long_text @ ''\<newline>'')
     (fst (run mixed_net None (Suc 0) ''https://github.com/o/r'' ''*.sol''))"
    unfolding mixed_sections .
  have k: "Suc 0 < length ?others" "?others ! Suc 0 = (''test/b.t.sol'', ''https://h/b.t.sol'')"
    by simp_all
  have b: "\<forall>j\<le>Suc 0.
            sum_list (map (fetch_chars main_output mixed_net ?hs)
              [(''src/a.sol'', ''https://h/a.sol'')]) +
            sum_list (map (fetch_chars supporting_output mixed_net ?hs) (take j ?others))
              \<le> 100000"
  proof (intro allI impI)
    fix j :: nat assume "j \<le> Suc 0"
    then have "j = 0 \<or> j = Suc 0" by auto
    then show "sum_list (map (fetch_chars main_output mixed_net ?hs)
              [(''src/a.sol'', ''https://h/a.sol'')]) +
            sum_list (map (fetch_chars supporting_output mixed_net ?hs) (take j ?others))
              \<le> 100000"
      by (auto simp: mixed_chars)
  qed
  have b0: "\<forall>j\<le>Suc 0.
            0 + sum_list (map (fetch_chars supporting_output mixed_net ?hs) (take j ?others))
              \<le> 100000"
    using b by (auto simp: mixed_chars)
  note t = content_rendering [where net = mixed_net and headers = ?hs
        and u = "''https://h/b.t.sol''" and r = ?ok and p = "''test/b.t.sol''"
        and github_token = None and file_pattern = "''*.sol''"
        and i = "Suc 0" and other_files = ?others and total_chars = 0
        and results = "[''s'']" and tr = "[]" and k = "Suc 0",
        OF mixed_responses(3) st]
  have "sublist (fetch_section supporting_output mixed_net ?hs
                   (''test/b.t.sol'', ''https://h/b.t.sol''))
          (fst (run mixed_net None (Suc 0) ''https://github.com/o/r'' ''*.sol''))"
    using t run_hyps k b by blast
  then have 2: "sublist
     (''\<newline>=== SUPPORTING FILE: test/b.t.sol ===\<newline>File size: 2001 characters\<newline>First 2000 characters:\<newline>'' @
      take 2000 long_text @ ''...\<newline>[File truncated for brevity]\<newline>'')
     (fst (run mixed_net None (Suc 0) ''https://github.com/o/r'' ''*.sol''))"
    unfolding mixed_sections .
  have "fetch_section supporting_output mixed_net ?hs (''test/b.t.sol'', ''https://h/b.t.sol'')
          \<in> set (fst (process_other mixed_net ?hs ?others ([''s''], 0, [])))"
    using t k b0 by blast
  then have 3: "(''\<newline>=== SUPPORTING FILE: test/b.t.sol ===\<newline>File size: 2001 characters\<newline>First 2000 characters:\<newline>'' @
    take 2000 long_text @ ''...\<newline>[File truncated for brevity]\<newline>'')
     \<in> set (fst (process_other mixed_net ?hs ?others ([''s''], 0, [])))"
    unfolding mixed_sections .
  show ?thesis using 1 2 3 by blast
qed

text \<open>
  Claim C9. When the fetch of a file fails (the request raises, or the status is not
  200), its section is an error section made of the path and of the text of the
  exception or the status, and the failure adds nothing to the counter. The section
  is among the results of the loop the file is in, and so is the section of every
  other file that loop handles: the first loop produces one section per main file,
  the second one for every supporting file it reaches. The error section stands in
  the returned document (the last replacement leaves the sections as they are when
  the text of the unpatched summary does not occur in them). No exception leaves the
  fetcher: for every network \<^const>\<open>run\<close> returns one of its two messages or the
  patched join of the rendered blocks, and on a network where every request fails it
  returns one of the two messages.
\<close>

theorem fetch_failure_inline:
  assumes "fetch_fails net (file_request headers u)"
  shows "fetch_section render_ok net headers (p, u) =
           ''\<newline>=== ERROR: '' @ p @ '' ===\<newline>'' @
           (case net (file_request headers u) of
              Inl e \<Rightarrow> ''Exception: '' @ str_exn e @ ''\<newline>''
            | Inr r \<Rightarrow> ''Could not fetch file (Status: '' @ str_int (status_code r) @ '')\<newline>'') \<and>
         fetch_chars render_ok net headers (p, u) = 0 \<and>
         fst (process_main net headers main_contracts (results, total_chars, tr)) =
           results @ map (fetch_section main_output net headers) main_contracts \<and>
         (\<forall>i. i < length other_files \<and>
              (\<forall>j\<le>i. total_chars +
                 sum_list (map (fetch_chars supporting_output net headers) (take j other_files))
                   \<le> 100000) \<longrightarrow>
              fetch_section supporting_output net headers (other_files ! i) \<in>
                set (fst (process_other net headers other_files (results, total_chars, tr)))) \<and>
         (headers = make_headers github_token \<and>
          url_match (rstrip_slash repo_url) = Some (owner, repo) \<and>
          find_solidity_files net depth owner repo [] headers = (solidity_files, tr0) \<and>
          classify solidity_files ([], []) = (mains, others) \<and>
          render net headers repo_url solidity_files tr0 = (summary, blocks, t, tr') \<and>
          \<not> sublist summary (concat (tl blocks)) \<longrightarrow>
            ((p, u) \<in> set mains \<longrightarrow>
               sublist (fetch_section main_output net headers (p, u))
                 (fst (run net github_token depth repo_url file_pattern))) \<and>
            (k < length others \<and> others ! k = (p, u) \<and>
             (\<forall>j\<le>k. sum_list (map (fetch_chars main_output net headers) mains) +
                sum_list (map (fetch_chars supporting_output net headers) (take j others))
                  \<le> 100000) \<longrightarrow>
               sublist (fetch_section supporting_output net headers (p, u))
                 (fst (run net github_token depth repo_url file_pattern)))) \<and>
         (fst (run net' github_token' depth' repo_url' file_pattern') = invalid_url_message \<or>
          fst (run net' github_token' depth' repo_url' file_pattern') = no_files_message \<or>
          (\<exists>owner' repo' solidity_files' tr0' summary' blocks' total_chars' tr''.
             url_match (rstrip_slash repo_url') = Some (owner', repo') \<and>
             find_solidity_files net' depth' owner' repo' [] (make_headers github_token') =
               (solidity_files', tr0') \<and>
             solidity_files' \<noteq> [] \<and>
             render net' (make_headers github_token') repo_url' solidity_files' tr0' =
               (summary', blocks', total_chars', tr'') \<and>
             fst (run net' github_token' depth' repo_url' file_pattern') =
               py_replace summary'
                 (final_summary_block summary'
                    (length (snd (classify solidity_files' ([], []))))
                    (length (concat blocks')))
                 (concat blocks'))) \<and>
         ((\<forall>req. fetch_fails net' req) \<longrightarrow>
            fst (run net' github_token' depth' repo_url' file_pattern') = invalid_url_message \<or>
            fst (run net' github_token' depth' repo_url' file_pattern') = no_files_message)"
proof -
  have 1: "fetch_section render_ok net headers (p, u) =
           ''\<newline>=== ERROR: '' @ p @ '' ===\<newline>'' @
           (case net (file_request headers u) of
              Inl e \<Rightarrow> ''Exception: '' @ str_exn e @ ''\<newline>''
            | Inr r \<Rightarrow> ''Could not fetch file (Status: '' @ str_int (status_code r) @ '')\<newline>'')"
    using assms
    by (simp add: fetch_section_def fetch_fails_def error_status_def error_exception_def
        split: sum.splits)
  have 2: "fetch_chars render_ok net headers (p, u) = 0"
    using assms by (simp add: fetch_section_fails)
  have 3: "fst (process_main net headers main_contracts (results, total_chars, tr)) =
           results @ map (fetch_section main_output net headers) main_contracts"
    by (simp add: process_main_eq)
  have 4: "\<forall>i. i < length other_files \<and>
              (\<forall>j\<le>i. total_chars +
                 sum_list (map (fetch_chars supporting_output net headers) (take j other_files))
                   \<le> 100000) \<longrightarrow>
              fetch_section supporting_output net headers (other_files ! i) \<in>
                set (fst (process_other net headers other_files (results, total_chars, tr)))"
    using process_other_mem by blast
  have 5: "headers = make_headers github_token \<and>
          url_match (rstrip_slash repo_url) = Some (owner, repo) \<and>
          find_solidity_files net depth owner repo [] headers = (solidity_files, tr0) \<and>
          classify solidity_files ([], []) = (mains, others) \<and>
          render net headers repo_url solidity_files tr0 = (summary, blocks, t, tr') \<and>
          \<not> sublist summary (concat (tl blocks)) \<longrightarrow>
            ((p, u) \<in> set mains \<longrightarrow>
               sublist (fetch_section main_output net headers (p, u))
                 (fst (run net github_token depth repo_url file_pattern))) \<and>
            (k < length others \<and> others ! k = (p, u) \<and>
             (\<forall>j\<le>k. sum_list (map (fetch_chars main_output net headers) mains) +
                sum_list (map (fetch_chars supporting_output net headers) (take j others))
                  \<le> 100000) \<longrightarrow>
               sublist (fetch_section supporting_output net headers (p, u))
                 (fst (run net github_token depth repo_url file_pattern)))"
  proof (intro impI, elim conjE)
    assume h: "headers = make_headers github_token"
      and m: "url_match (rstrip_slash repo_url) = Some (owner, repo)"
      and f: "find_solidity_files net depth owner repo [] headers = (solidity_files, tr0)"
      and c: "classify solidity_files ([], []) = (mains, others)"
      and r: "render net headers repo_url solidity_files tr0 = (summary, blocks, t, tr')"
      and cl: "\<not> sublist summary (concat (tl blocks))"
    have a: "(p, u) \<in> set mains \<longrightarrow>
               sublist (fetch_section main_output net headers (p, u))
                 (fst (run net github_token depth repo_url file_pattern))"
    proof
      assume "(p, u) \<in> set mains"
      then have "fetch_section main_output net headers (p, u) \<in> set (tl blocks)"
        by (rule render_main_mem [OF c r])
      then show "sublist (fetch_section main_output net headers (p, u))
                 (fst (run net github_token depth repo_url file_pattern))"
        by (rule run_shows_section [OF m f [unfolded h] r [unfolded h] cl])
    qed
    have b: "k < length others \<and> others ! k = (p, u) \<and>
             (\<forall>j\<le>k. sum_list (map (fetch_chars main_output net headers) mains) +
                sum_list (map (fetch_chars supporting_output net headers) (take j others))
                  \<le> 100000) \<longrightarrow>
               sublist (fetch_section supporting_output net headers (p, u))
                 (fst (run net github_token depth repo_url file_pattern))"
    proof (intro impI, elim conjE)
      assume k: "k < length others" and e: "others ! k = (p, u)"
        and b: "\<forall>j\<le>k. sum_list (map (fetch_chars main_output net headers) mains) +
                sum_list (map (fetch_chars supporting_output net headers) (take j others))
                  \<le> 100000"
      have "fetch_section supporting_output net headers (others ! k) \<in> set (tl blocks)"
        by (rule render_other_mem [OF c r k b])
      then have "fetch_section supporting_output net headers (p, u) \<in> set (tl blocks)"
        unfolding e .
      then show "sublist (fetch_section supporting_output net headers (p, u))
                 (fst (run net github_token depth repo_url file_pattern))"
        by (rule run_shows_section [OF m f [unfolded h] r [unfolded h] cl])
    qed
    from a b show "((p, u) \<in> set mains \<longrightarrow>
               sublist (fetch_section main_output net headers (p, u))
                 (fst (run net github_token depth repo_url file_pattern))) \<and>
            (k < length others \<and> others ! k = (p, u) \<and>
             (\<forall>j\<le>k. sum_list (map (fetch_chars main_output net headers) mains) +
                sum_list (map (fetch_chars supporting_output net headers) (take j others))
                  \<le> 100000) \<longrightarrow>
               sublist (fetch_section supporting_output net headers (p, u))
                 (fst (run net github_token depth repo_url file_pattern)))"
      by (rule conjI)
  qed
  note 6 = run_forms [of net' github_token' depth' repo_url' file_pattern']
  have 7: "(\<forall>req. fetch_fails net' req) \<longrightarrow>
            fst (run net' github_token' depth' repo_url' file_pattern') = invalid_url_message \<or>
            fst (run net' github_token' depth' repo_url' file_pattern') = no_files_message"
    using run_all_fail by blast
  show ?thesis
    by (intro conjI) (rule 1, rule 2, rule 3, rule 4, rule 5, rule 6, rule 7)
qed

theorem fetch_failure_inline_witness:
  "sublist ''\<newline>=== ERROR: test/a.t.sol ===\<newline>Could not fetch file (Status: 404)\<newline>''
     (fst (run mixed_net None (Suc 0) ''https://github.com/o/r'' ''*.sol'')) \<and>
   ''\<newline>=== ERROR: test/a.t.sol ===\<newline>Could not fetch file (Status: 404)\<newline>''
     \<in> set (fst (process_other mixed_net (make_headers None)
                  [(''test/a.t.sol'', ''https://h/a.t.sol''),
                   (''test/b.t.sol'', ''https://h/b.t.sol'')] ([''s''], 0, []))) \<and>
   (''\<newline>=== SUPPORTING FILE: test/b.t.sol ===\<newline>File size: 2001 characters\<newline>First 2000 characters:\<newline>'' @
    take 2000 long_text @ ''...\<newline>[File truncated for brevity]\<newline>'')
     \<in> set (fst (process_other mixed_net (make_headers None)
                  [(''test/a.t.sol'', ''https://h/a.t.sol''),
                   (''test/b.t.sol'', ''https://h/b.t.sol'')] ([''s''], 0, [])))"
proof -
  let ?hs = "make_headers None"
  let ?others = "[(''test/a.t.sol'', ''https://h/a.t.sol''),
                  (''test/b.t.sol'', ''https://h/b.t.sol'')]"
  have ff: "fetch_fails mixed_net (file_request ?hs ''https://h/a.t.sol'')"
    by (simp add: fetch_fails_def mixed_responses)
  have fd: "find_solidity_files mixed_net (Suc 0) ''o'' ''r'' [] ?hs =
     ([(''src/a.sol'', ''https://h/a.sol''), (''test/a.t.sol'', ''https://h/a.t.sol''),
       (''test/b.t.sol'', ''https://h/b.t.sol'')],
      [\<lparr>req_url = ''https://api.github.com/repos/o/r/contents/'',
        req_headers = list_headers ?hs\<rparr>])"
    by (rule mixed_find)
  note run_hyps = refl [of ?hs] url_match_o_r fd mixed_classify
    mixed_render [of ?hs "[\<lparr>req_url = ''https://api.github.com/repos/o/r/contents/'',
        req_headers = list_headers ?hs\<rparr>]"] mixed_clean
  have k0: "0 < length ?others" "?others ! 0 = (''test/a.t.sol'', ''https://h/a.t.sol'')"
    by simp_all
  have b0: "\<forall>j\<le>0.
            sum_list (map (fetch_chars main_output mixed_net ?hs)
              [(''src/a.sol'', ''https://h/a.sol'')]) +
            sum_list (map (fetch_chars supporting_output mixed_net ?hs) (take j ?others))
              \<le> 100000"
    by (simp add: mixed_chars)
  note t = fetch_failure_inline [where net = mixed_net and headers = ?hs
        and u = "''https://h/a.t.sol''" and p = "''test/a.t.sol''"
        and github_token = None and file_pattern = "''*.sol''"
        and other_files = ?others and total_chars = 0
        and results = "[''s'']" and tr = "[]" and k = 0, OF ff]
  have "sublist (fetch_section supporting_output mixed_net ?hs
                   (''test/a.t.sol'', ''https://h/a.t.sol''))
          (fst (run mixed_net None (Suc 0) ''https://github.com/o/r'' ''*.sol''))"
    using t run_hyps k0 b0 by blast
  then have 1: "sublist
     ''\<newline>=== ERROR: test/a.t.sol ===\<newline>Could not fetch file (Status: 404)\<newline>''
     (fst (run mixed_net None (Suc 0) ''https://github.com/o/r'' ''*.sol''))"
    unfolding mixed_sections .
  have all: "\<forall>i. i < length ?others \<and>
              (\<forall>j\<le>i. 0 +
                 sum_list (map (fetch_chars supporting_output mixed_net ?hs) (take j ?others))
                   \<le> 100000) \<longrightarrow>
              fetch_section supporting_output mixed_net ?hs (?others ! i) \<in>
                set (fst (process_other mixed_net ?hs ?others ([''s''], 0, [])))"
    by (rule t [THEN conjunct2, THEN conjunct2, THEN conjunct2, THEN conjunct1])
  have c: "\<forall>j\<le>i. 0 +
             sum_list (map (fetch_chars supporting_output mixed_net ?hs) (take j ?others))
               \<le> 100000" if "i \<le> Suc 0" for i
  proof (intro allI impI)
    fix j :: nat assume "j \<le> i"
    with that have "j = 0 \<or> j = Suc 0" by auto
    then show "0 + sum_list (map (fetch_chars supporting_output mixed_net ?hs) (take j ?others))
               \<le> 100000"
      by (auto simp: mixed_chars)
  qed
  have k1: "Suc 0 < length ?others"
    "?others ! Suc 0 = (''test/b.t.sol'', ''https://h/b.t.sol'')"
    by simp_all
  have "fetch_section supporting_output mixed_net ?hs (?others ! 0) \<in>
          set (fst (process_other mixed_net ?hs ?others ([''s''], 0, [])))"
  proof (rule all [rule_format], intro conjI)
    show "0 < length ?others" by (rule k0(1))
    show "\<forall>j\<le>0. 0 +
             sum_list (map (fetch_chars supporting_output mixed_net ?hs) (take j ?others))
               \<le> 100000"
      by (rule c) simp
  qed
  then have 2: "''\<newline>=== ERROR: test/a.t.sol ===\<newline>Could not fetch file (Status: 404)\<newline>''
     \<in> set (fst (process_other mixed_net ?hs ?others ([''s''], 0, [])))"
    unfolding k0(2) mixed_sections .
  have "fetch_section supporting_output mixed_net ?hs (?others ! Suc 0) \<in>
          set (fst (process_other mixed_net ?hs ?others ([''s''], 0, [])))"
  proof (rule all [rule_format], intro conjI)
    show "Suc 0 < length ?others" by (rule k1(1))
    show "\<forall>j\<le>Suc 0. 0 +
             sum_list (map (fetch_chars supporting_output mixed_net ?hs) (take j ?others))
               \<le> 100000"
      by (rule c) simp
  qed
  then have 3: "(''\<newline>=== SUPPORTING FILE: test/b.t.sol ===\<newline>File size: 2001 characters\<newline>First 2000 characters:\<newline>'' @
    take 2000 long_text @ ''...\<newline>[File truncated for brevity]\<newline>'')
     \<in> set (fst (process_other mixed_net ?hs ?others ([''s''], 0, [])))"
    unfolding k1(2) mixed_sections .
  show ?thesis using 1 2 3 by blast
qed

end
